theory Spec2Isabelle
  imports Complex_Main "HOL-Library.AList"
begin

section \<open>JSON values and the Python primitives the editor relies on\<close>

text \<open>
  The configuration document is what \<^verbatim>\<open>json.load\<close> returns: \<^verbatim>\<open>None\<close>, booleans,
  integers, floats, strings, lists and dicts. A Python string is a sequence of Unicode
  code points, here a list of natural numbers; \<open>ascii\<close> writes one from its ASCII
  characters. A finite float is carried as the real number it denotes; \<^verbatim>\<open>json.load\<close>
  also reads the literals \<^verbatim>\<open>NaN\<close>, \<^verbatim>\<open>Infinity\<close> and \<^verbatim>\<open>-Infinity\<close> (and a number such
  as \<^verbatim>\<open>1e999\<close> as infinity). A dict keeps its keys in insertion order, so it is an
  association list; \<^verbatim>\<open>d[k] = v\<close> is \<open>AList.update\<close> (in place when the key exists,
  appended otherwise), \<^verbatim>\<open>d.pop(k, None)\<close> is \<open>AList.delete\<close> and \<^verbatim>\<open>d.get(k)\<close> is
  \<open>map_of\<close>. Keys are only ever compared for equality and are kept as byte strings.
\<close>

type_synonym pystr = "nat list"

definition ascii :: "string \<Rightarrow> pystr" where
  "ascii s = map of_char s"

datatype json =
    JNull
  | JBool bool
  | JInt int
  | JFloat real
  | JNaN
  | JInf bool
  | JStr pystr
  | JList "json list"
  | JObj "(string \<times> json) list"

type_synonym obj = "(string \<times> json) list"

datatype py_error = TypeError | ValueError | OverflowError | IndexError | KeyError

text \<open>
  Finite numbers compare across \<^verbatim>\<open>bool\<close>, \<^verbatim>\<open>int\<close> and \<^verbatim>\<open>float\<close> in Python;
  \<open>JInf True\<close> is positive infinity.
\<close>

fun num_val :: "json \<Rightarrow> real option" where
  "num_val (JBool b) = Some (if b then 1 else 0)"
| "num_val (JInt i) = Some (of_int i)"
| "num_val (JFloat r) = Some r"
| "num_val _ = None"

lemma size_snd_obj:
  "p \<in> set a \<Longrightarrow> size (snd p) < Suc (size_list (size_prod (\<lambda>_. 0) size) a)"
  by (induction a) (auto simp: less_Suc_eq_le)

text \<open>
  Python's \<^verbatim>\<open>==\<close> on two JSON values. Dicts compare without regard to key order.
  \<^verbatim>\<open>NaN\<close> equals nothing, itself included; but the items of lists and the values of
  dicts are first compared by identity, and every \<^verbatim>\<open>NaN\<close> that \<^verbatim>\<open>json.load\<close> returns
  is the one object \<^verbatim>\<open>json.decoder.NaN\<close>.
\<close>

function (sequential) py_eq :: "json \<Rightarrow> json \<Rightarrow> bool" where
  "py_eq JNull JNull = True"
| "py_eq (JStr s) (JStr t) = (s = t)"
| "py_eq (JInf a) (JInf b) = (a = b)"
| "py_eq (JList xs) (JList ys) =
     list_all2 (\<lambda>x y. (x = JNaN \<and> y = JNaN) \<or> py_eq x y) xs ys"
| "py_eq (JObj a) (JObj b) =
     (length a = length b \<and>
      (\<forall>p \<in> set a. case map_of b (fst p) of
                       None \<Rightarrow> False
                     | Some w \<Rightarrow> (snd p = JNaN \<and> w = JNaN) \<or> py_eq (snd p) w))"
| "py_eq x y = (case (num_val x, num_val y) of (Some a, Some b) \<Rightarrow> a = b | _ \<Rightarrow> False)"
  by pat_completeness auto
termination
  apply (relation "measure (\<lambda>(x, y). size x)")
    apply simp
   apply (auto simp: size_list_estimation' less_Suc_eq_le dest: size_snd_obj)
  done

text \<open>\<^verbatim>\<open>d.get(k)\<close>: a missing key reads as \<^verbatim>\<open>None\<close>.\<close>

definition get_or_null :: "obj \<Rightarrow> string \<Rightarrow> json" where
  "get_or_null d k = (case map_of d k of None \<Rightarrow> JNull | Some v \<Rightarrow> v)"

subsection \<open>\<^verbatim>\<open>str(int)\<close> and \<^verbatim>\<open>int(x)\<close>\<close>

definition digit_char :: "nat \<Rightarrow> nat" where
  "digit_char d = 48 + d"

function str_nat :: "nat \<Rightarrow> pystr" where
  "str_nat n = (if n < 10 then [digit_char n] else str_nat (n div 10) @ [digit_char (n mod 10)])"
  by pat_completeness auto
termination
  by (relation "measure id") auto

declare str_nat.simps [simp del]

text \<open>
  \<^verbatim>\<open>str(i)\<close>, the decimal numeral with a minus sign (code point 45) below zero. CPython
  refuses to print an integer of more than 4300 digits; \<open>str_too_long\<close> says when.
\<close>

definition py_str :: "int \<Rightarrow> pystr" where
  "py_str i = (if i < 0 then 45 # str_nat (nat (- i)) else str_nat (nat i))"

definition str_too_long :: "int \<Rightarrow> bool" where
  "str_too_long i = (length (str_nat (nat \<bar>i\<bar>)) > 4300)"

text \<open>
  \<^verbatim>\<open>int(s)\<close> on a string first maps it to ASCII: a code point below 127 stays, any other
  Unicode whitespace becomes a space, any other Unicode decimal digit becomes the ASCII
  digit of its value, and anything else a question mark. The decimal digits of Unicode
  14.0 (CPython 3.11) come in 66 runs of ten; the list holds the zero of each run.
\<close>

definition unicode_decimal_zeros :: "nat list" where
  "unicode_decimal_zeros =
     [48, 1632, 1776, 1984, 2406, 2534, 2662, 2790, 2918, 3046, 3174, 3302, 3430, 3558, 3664,
      3792, 3872, 4160, 4240, 6112, 6160, 6470, 6608, 6784, 6800, 6992, 7088, 7232, 7248,
      42528, 43216, 43264, 43472, 43504, 43600, 44016, 65296, 66720, 68912, 69734, 69872,
      69942, 70096, 70384, 70736, 70864, 71248, 71360, 71472, 71904, 72016, 72784, 73040,
      73120, 92768, 92864, 93008, 120782, 120792, 120802, 120812, 120822, 123200, 123632,
      125264, 130032]"

definition uni_decimal :: "nat \<Rightarrow> nat option" where
  "uni_decimal ch =
     map_option (\<lambda>z. ch - z) (find (\<lambda>z. z \<le> ch \<and> ch \<le> z + 9) unicode_decimal_zeros)"

text \<open>The whitespace of Unicode from code point 127 on.\<close>

definition uni_isspace :: "nat \<Rightarrow> bool" where
  "uni_isspace ch =
     (ch \<in> set [133, 160, 5760, 8232, 8233, 8239, 8287, 12288] \<or> (8192 \<le> ch \<and> ch \<le> 8202))"

definition to_ascii :: "nat \<Rightarrow> nat" where
  "to_ascii ch =
     (if ch < 127 then ch
      else if uni_isspace ch then 32
      else (case uni_decimal ch of Some d \<Rightarrow> 48 + d | None \<Rightarrow> 63))"

definition is_digit :: "nat \<Rightarrow> bool" where
  "is_digit c = (48 \<le> c \<and> c \<le> 57)"

definition digit_val :: "nat \<Rightarrow> nat" where
  "digit_val c = c - 48"

text \<open>The ASCII whitespace skipped around the numeral: TAB to CR and the space.\<close>

definition is_space :: "nat \<Rightarrow> bool" where
  "is_space c = ((9 \<le> c \<and> c \<le> 13) \<or> c = 32)"

definition strip :: "pystr \<Rightarrow> pystr" where
  "strip s = rev (dropWhile is_space (rev (dropWhile is_space s)))"

text \<open>
  Decimal digits with single underscores (code point 95) between digits, as in
  \<^verbatim>\<open>"1_000"\<close>; the flag says whether the previous character was a digit.
\<close>

fun int_digits :: "bool \<Rightarrow> nat \<Rightarrow> pystr \<Rightarrow> nat option" where
  "int_digits prev acc [] = (if prev then Some acc else None)"
| "int_digits prev acc (c # cs) =
     (if is_digit c then int_digits True (10 * acc + digit_val c) cs
      else if c = 95 \<and> prev then int_digits False acc cs
      else None)"

text \<open>
  \<^verbatim>\<open>int(s)\<close> for a string; \<open>None\<close> is its \<^verbatim>\<open>ValueError\<close>. An optional sign (45 is
  minus, 43 plus) comes before the digits, and more than 4300 digits are refused.
\<close>

definition int_of_str :: "pystr \<Rightarrow> int option" where
  "int_of_str s =
     (case strip (map to_ascii s) of
        [] \<Rightarrow> None
      | c # r \<Rightarrow>
          let body = (if c = 45 \<or> c = 43 then r else c # r)
          in if length (filter is_digit body) > 4300 then None
             else map_option (\<lambda>n. if c = 45 then - int n else int n) (int_digits False 0 body))"

text \<open>
  \<^verbatim>\<open>int(x)\<close>. A float is truncated towards zero; \<^verbatim>\<open>NaN\<close> is a \<^verbatim>\<open>ValueError\<close>, an
  infinity an \<^verbatim>\<open>OverflowError\<close>, and \<^verbatim>\<open>None\<close>, lists and dicts are a \<^verbatim>\<open>TypeError\<close>.
\<close>

fun py_int :: "json \<Rightarrow> py_error + int" where
  "py_int (JStr s) = (case int_of_str s of None \<Rightarrow> Inl ValueError | Some n \<Rightarrow> Inr n)"
| "py_int (JInt i) = Inr i"
| "py_int (JBool b) = Inr (if b then 1 else 0)"
| "py_int (JFloat r) = Inr (if r < 0 then \<lceil>r\<rceil> else \<lfloor>r\<rfloor>)"
| "py_int JNaN = Inl ValueError"
| "py_int (JInf _) = Inl OverflowError"
| "py_int _ = Inl TypeError"

section \<open>Trigger codec\<close>

text \<open>
  \<^verbatim>\<open>_load_data\<close>, lines 63-73: the time field is read with \<^verbatim>\<open>int()\<close>, 0 when that
  raises \<^verbatim>\<open>ValueError\<close> or \<^verbatim>\<open>TypeError\<close> (any other exception leaves the method); a
  value of 100000 or more is a disabled alarm.
\<close>

definition decode_time :: "json \<Rightarrow> py_error + (int \<times> bool)" where
  "decode_time v =
     (case (case py_int v of
              Inr n \<Rightarrow> Inr n
            | Inl e \<Rightarrow> if e = ValueError \<or> e = TypeError then Inr 0 else Inl e) of
        Inl e \<Rightarrow> Inl e
      | Inr seconds \<Rightarrow>
          Inr (if seconds \<ge> 100000 then (seconds - 100000, False) else (seconds, True)))"

text \<open>\<^verbatim>\<open>save_alarm\<close> lines 257, 312 and \<^verbatim>\<open>_save_alarms\<close> lines 396-407.\<close>

definition encode_time :: "int \<Rightarrow> bool \<Rightarrow> pystr" where
  "encode_time seconds enabled = py_str (if enabled then seconds else seconds + 100000)"

section \<open>Time strings (utils.py)\<close>

text \<open>\<^verbatim>\<open>time_str.split(':')\<close>: one more part than there are colons (code point 58).\<close>

fun split_colon :: "pystr \<Rightarrow> pystr list" where
  "split_colon [] = [[]]"
| "split_colon (c # cs) =
     (if c = 58 then [] # split_colon cs
      else (case split_colon cs of p # ps \<Rightarrow> (c # p) # ps | [] \<Rightarrow> [[c]]))"

text \<open>
  \<^verbatim>\<open>time_to_seconds\<close>: every exception of the body is caught and gives -1, as does a
  wrong number of parts or a value out of range.
\<close>

definition time_to_seconds :: "pystr \<Rightarrow> int" where
  "time_to_seconds time_str =
     (case split_colon time_str of
        [p0, p1] \<Rightarrow>
          (case int_of_str p0 of
             None \<Rightarrow> - 1
           | Some hours \<Rightarrow>
               (case int_of_str p1 of
                  None \<Rightarrow> - 1
                | Some minutes \<Rightarrow>
                    if 0 \<le> hours \<and> hours < 24 \<and> 0 \<le> minutes \<and> minutes < 60
                    then hours * 3600 + minutes * 60 else - 1))
      | _ \<Rightarrow> - 1)"

section \<open>Document store (config_manager.py)\<close>

text \<open>
  The accessors of \<^verbatim>\<open>ConfigManager\<close> are typed \<^verbatim>\<open>List[Dict[str, Any]]\<close>: the three
  arrays hold dicts, whose field values are arbitrary JSON. A key of the document that is
  absent is \<open>None\<close>; the field \<open>notes_list\<close> is the key \<^verbatim>\<open>"notes"\<close>. The interfaces are opened only after \<^verbatim>\<open>load_config\<close> has
  succeeded, so \<^verbatim>\<open>config_data\<close> is a dict; \<^verbatim>\<open>not self.config_data\<close> is then true
  exactly for the empty dict.
\<close>

record mesh =
  specialEffectTriggers :: "obj list option"
  mesh_rest :: obj

record config =
  meshes :: "mesh list option"
  specialEffectLibrary :: "obj list option"
  notes_list :: "obj list option"
  config_rest :: obj

definition is_empty_config :: "config \<Rightarrow> bool" where
  "is_empty_config c =
     (meshes c = None \<and> specialEffectLibrary c = None \<and> notes_list c = None \<and> config_rest c = [])"

text \<open>\<^verbatim>\<open>d.get(key, [])\<close> for the array-valued keys.\<close>

definition or_empty :: "'a list option \<Rightarrow> 'a list" where
  "or_empty v = (case v of None \<Rightarrow> [] | Some xs \<Rightarrow> xs)"

definition is_type6 :: "obj \<Rightarrow> bool" where
  "is_type6 e = py_eq (get_or_null e ''type'') (JInt 6)"

definition is_time_trigger :: "obj \<Rightarrow> bool" where
  "is_time_trigger t = (map_of t ''triggerAtSecondOfDay'' \<noteq> None)"

definition get_notes :: "config \<Rightarrow> obj list" where
  "get_notes c = (if is_empty_config c then [] else or_empty (notes_list c))"

definition set_notes :: "config \<Rightarrow> obj list \<Rightarrow> config" where
  "set_notes c ns = (if is_empty_config c then c else c\<lparr>notes_list := Some ns\<rparr>)"

definition get_type6_effects :: "config \<Rightarrow> obj list" where
  "get_type6_effects c =
     (if is_empty_config c then [] else filter is_type6 (or_empty (specialEffectLibrary c)))"

text \<open>\<^verbatim>\<open>[i for i, e in enumerate(effects) if e.get("type") == 6]\<close>\<close>

definition type6_indices :: "obj list \<Rightarrow> nat list" where
  "type6_indices effects = filter (\<lambda>i. is_type6 (effects ! i)) [0..<length effects]"

definition set_type6_effect :: "config \<Rightarrow> int \<Rightarrow> obj \<Rightarrow> config" where
  "set_type6_effect c index effect =
     (if is_empty_config c then c
      else
        let effects = or_empty (specialEffectLibrary c);
            idxs = type6_indices effects
        in if 0 \<le> index \<and> index < int (length idxs)
           then c\<lparr>specialEffectLibrary := Some (effects[idxs ! nat index := effect])\<rparr>
           else c\<lparr>specialEffectLibrary := Some effects\<rparr>)"

definition add_type6_effect :: "config \<Rightarrow> obj \<Rightarrow> config \<times> int" where
  "add_type6_effect c effect =
     (if is_empty_config c then (c, - 1)
      else
        let effects = or_empty (specialEffectLibrary c)
        in (c\<lparr>specialEffectLibrary := Some (effects @ [effect])\<rparr>, int (length effects)))"

text \<open>\<^verbatim>\<open>xs.pop(i)\<close> for an index in range.\<close>

definition pop_at :: "nat \<Rightarrow> 'a list \<Rightarrow> 'a list" where
  "pop_at i xs = take i xs @ drop (Suc i) xs"

definition remove_type6_effect :: "config \<Rightarrow> int \<Rightarrow> config" where
  "remove_type6_effect c index =
     (if is_empty_config c then c
      else
        (case specialEffectLibrary c of
           None \<Rightarrow> c
         | Some effects \<Rightarrow>
             let idxs = type6_indices effects
             in if 0 \<le> index \<and> index < int (length idxs)
                then c\<lparr>specialEffectLibrary := Some (pop_at (idxs ! nat index) effects)\<rparr>
                else c))"

definition get_time_triggers :: "config \<Rightarrow> obj list" where
  "get_time_triggers c =
     (if is_empty_config c then []
      else
        (case or_empty (meshes c) of
           [] \<Rightarrow> []
         | m # _ \<Rightarrow> filter is_time_trigger (or_empty (specialEffectTriggers m))))"

definition set_time_triggers :: "config \<Rightarrow> obj list \<Rightarrow> config" where
  "set_time_triggers c triggers =
     (if is_empty_config c then c
      else
        (case or_empty (meshes c) of
           [] \<Rightarrow> c
         | m # ms \<Rightarrow>
             let all_triggers = or_empty (specialEffectTriggers m);
                 non_time_triggers = filter (\<lambda>t. \<not> is_time_trigger t) all_triggers
             in c\<lparr>meshes :=
                   Some (m\<lparr>specialEffectTriggers := Some (non_time_triggers @ triggers)\<rparr> # ms)\<rparr>))"

section \<open>Alarm editor (alarm_interface.py)\<close>

subsection \<open>Index projection\<close>

text \<open>
  \<^verbatim>\<open>_load_data\<close> lines 42-47 and \<^verbatim>\<open>_save_alarms\<close> lines 386-391: the loop over
  \<^verbatim>\<open>enumerate(all_effects)\<close> with the counter \<^verbatim>\<open>type6_count\<close>; the dict is kept as
  its list of items.
\<close>

fun index_loop :: "obj list \<Rightarrow> nat \<Rightarrow> nat \<Rightarrow> (nat \<times> nat) list \<Rightarrow> (nat \<times> nat) list" where
  "index_loop [] i type6_count d = d"
| "index_loop (effect # rest) i type6_count d =
     (if is_type6 effect
      then index_loop rest (Suc i) (Suc type6_count) (AList.update type6_count i d)
      else index_loop rest (Suc i) type6_count d)"

definition build_type6_to_actual_index :: "obj list \<Rightarrow> (nat \<times> nat) list" where
  "build_type6_to_actual_index all_effects = index_loop all_effects 0 0 []"

text \<open>Line 56: \<^verbatim>\<open>{v: k for k, v in d.items()}\<close>\<close>

definition invert_index :: "(nat \<times> nat) list \<Rightarrow> (nat \<times> nat) list" where
  "invert_index d = fold (\<lambda>(k, v) m. AList.update v k m) d []"

subsection \<open>View-records\<close>

record alarm =
  seconds :: int
  enabled :: bool
  name :: json
  audio_file :: json
  loop :: json
  type6_index :: int
  actual_index :: json
  trigger :: obj
  trigger_index :: nat

record alarm_state =
  config_data :: config
  alarms :: "alarm list"
  type6_effects :: "obj list"
  type6_to_actual_index :: "(nat \<times> nat) list"

text \<open>Truth value of a JSON value, and \<^verbatim>\<open>len\<close> (which rejects numbers).\<close>

fun truthy :: "json \<Rightarrow> bool" where
  "truthy JNull = False"
| "truthy (JBool b) = b"
| "truthy (JInt i) = (i \<noteq> 0)"
| "truthy (JFloat r) = (r \<noteq> 0)"
| "truthy JNaN = True"
| "truthy (JInf _) = True"
| "truthy (JStr s) = (s \<noteq> [])"
| "truthy (JList xs) = (xs \<noteq> [])"
| "truthy (JObj d) = (d \<noteq> [])"

fun py_len :: "json \<Rightarrow> py_error + nat" where
  "py_len (JStr s) = Inr (length s)"
| "py_len (JList xs) = Inr (length xs)"
| "py_len (JObj d) = Inr (length d)"
| "py_len _ = Inl TypeError"

text \<open>\<^verbatim>\<open>x[0]\<close>; the keys of a JSON dict are strings, so \<^verbatim>\<open>d[0]\<close> is a KeyError.\<close>

fun item0 :: "json \<Rightarrow> py_error + json" where
  "item0 (JList []) = Inl IndexError"
| "item0 (JList (x # _)) = Inr x"
| "item0 (JStr []) = Inl IndexError"
| "item0 (JStr (c # _)) = Inr (JStr [c])"
| "item0 (JObj _) = Inl KeyError"
| "item0 _ = Inl TypeError"

text \<open>\<^verbatim>\<open>isinstance(x, int)\<close>: \<^verbatim>\<open>bool\<close> is a subclass of \<^verbatim>\<open>int\<close>.\<close>

fun is_instance_int :: "json \<Rightarrow> bool" where
  "is_instance_int (JInt _) = True"
| "is_instance_int (JBool _) = True"
| "is_instance_int _ = False"

text \<open>
  Lines 75-77. \<open>Inr None\<close>: the trigger has no effect reference and is skipped.
\<close>

definition first_ref :: "obj \<Rightarrow> py_error + json option" where
  "first_ref trg =
     (let effect_indices = (case map_of trg ''effectIndices'' of None \<Rightarrow> JList [] | Some v \<Rightarrow> v)
      in if \<not> truthy effect_indices then Inr None
         else
           (case py_len effect_indices of
              Inl e \<Rightarrow> Inl e
            | Inr n \<Rightarrow>
                if \<not> n > 0 then Inr None
                else
                  (case item0 effect_indices of
                     Inl e \<Rightarrow> Inl e
                   | Inr x \<Rightarrow>
                       if is_instance_int x then Inr (Some x)
                       else (case item0 x of Inl e \<Rightarrow> Inl e | Inr y \<Rightarrow> Inr (Some y)))))"

text \<open>
  \<^verbatim>\<open>d.get(key, -1)\<close> on a dict with integer keys: a bool or an integral float finds the
  integer it equals, a list or dict is unhashable (\<^verbatim>\<open>TypeError\<close>).
\<close>

definition dict_get_int :: "(nat \<times> nat) list \<Rightarrow> int \<Rightarrow> int" where
  "dict_get_int d k =
     (if k < 0 then - 1 else (case map_of d (nat k) of None \<Rightarrow> - 1 | Some v \<Rightarrow> int v))"

fun dict_get_json :: "(nat \<times> nat) list \<Rightarrow> json \<Rightarrow> py_error + int" where
  "dict_get_json d (JInt i) = Inr (dict_get_int d i)"
| "dict_get_json d (JBool b) = Inr (dict_get_int d (if b then 1 else 0))"
| "dict_get_json d (JFloat r) = Inr (if of_int \<lfloor>r\<rfloor> = r then dict_get_int d \<lfloor>r\<rfloor> else - 1)"
| "dict_get_json d (JStr _) = Inr (- 1)"
| "dict_get_json d JNull = Inr (- 1)"
| "dict_get_json d JNaN = Inr (- 1)"
| "dict_get_json d (JInf _) = Inr (- 1)"
| "dict_get_json d _ = Inl TypeError"

definition get_default :: "obj \<Rightarrow> string \<Rightarrow> json \<Rightarrow> json" where
  "get_default d k dflt = (case map_of d k of None \<Rightarrow> dflt | Some v \<Rightarrow> v)"

text \<open>
  The body of the loop of lines 62-94 for one trigger: the time is decoded first, then the
  first effect reference is looked up.
\<close>

definition alarm_of_trigger ::
  "(nat \<times> nat) list \<Rightarrow> obj list \<Rightarrow> nat \<Rightarrow> obj \<Rightarrow> py_error + alarm option" where
  "alarm_of_trigger actual_to_type6_index effects trigger_idx trg =
     (case decode_time (get_default trg ''triggerAtSecondOfDay'' (JStr (ascii ''0''))) of
        Inl e \<Rightarrow> Inl e
      | Inr (secs, en) \<Rightarrow>
          (case first_ref trg of
             Inl e \<Rightarrow> Inl e
           | Inr None \<Rightarrow> Inr None
           | Inr (Some actual) \<Rightarrow>
               (case dict_get_json actual_to_type6_index actual of
                  Inl e \<Rightarrow> Inl e
                | Inr t6 \<Rightarrow>
                    if 0 \<le> t6 \<and> t6 < int (length effects)
                    then
                      let effect = effects ! nat t6
                      in Inr (Some \<lparr> seconds = secs, enabled = en,
                            name = get_default effect ''text'' (JStr []),
                            audio_file = get_default effect ''audioFileName'' (JStr []),
                            loop = get_default effect ''loop'' (JBool False),
                            type6_index = t6, actual_index = actual,
                            trigger = trg, trigger_index = trigger_idx \<rparr>)
                    else Inr None)))"

fun load_loop ::
  "(nat \<times> nat) list \<Rightarrow> obj list \<Rightarrow> nat \<Rightarrow> obj list \<Rightarrow> alarm list \<Rightarrow> py_error + alarm list" where
  "load_loop a2t effects trigger_idx [] acc = Inr acc"
| "load_loop a2t effects trigger_idx (trg # rest) acc =
     (case alarm_of_trigger a2t effects trigger_idx trg of
        Inl e \<Rightarrow> Inl e
      | Inr None \<Rightarrow> load_loop a2t effects (Suc trigger_idx) rest acc
      | Inr (Some a) \<Rightarrow> load_loop a2t effects (Suc trigger_idx) rest (acc @ [a]))"

text \<open>
  \<^verbatim>\<open>_load_data\<close>. An exception leaves the method (and the Tk callback that called it);
  the fields \<^verbatim>\<open>trigger_to_alarm_map\<close> and \<^verbatim>\<open>mp3_files\<close>, which no other code
  reads for the document, are left out.
\<close>

definition load_data :: "config \<Rightarrow> py_error + alarm_state" where
  "load_data c =
     (let all_effects = or_empty (specialEffectLibrary c);
          t2a = build_type6_to_actual_index all_effects;
          effects = get_type6_effects c;
          time_triggers = get_time_triggers c;
          a2t = invert_index t2a
      in case load_loop a2t effects 0 time_triggers [] of
           Inl e \<Rightarrow> Inl e
         | Inr als \<Rightarrow>
             Inr \<lparr> config_data = c, alarms = als, type6_effects = effects,
                   type6_to_actual_index = t2a \<rparr>)"

subsection \<open>Delete\<close>

fun remove_first :: "('a \<Rightarrow> bool) \<Rightarrow> 'a list \<Rightarrow> 'a list" where
  "remove_first P [] = []"
| "remove_first P (x # xs) = (if P x then xs else x # remove_first P xs)"

definition same_trigger :: "obj \<Rightarrow> obj \<Rightarrow> bool" where
  "same_trigger time_trigger trg =
     (py_eq (get_or_null trg ''triggerAtSecondOfDay'') (get_or_null time_trigger ''triggerAtSecondOfDay'')
      \<and> py_eq (get_or_null trg ''effectIndices'') (get_or_null time_trigger ''effectIndices''))"

text \<open>\<^verbatim>\<open>_remove_time_trigger\<close>; without the key the list popped from is a temporary.\<close>

definition remove_time_trigger :: "config \<Rightarrow> nat \<Rightarrow> config" where
  "remove_time_trigger c trigger_idx =
     (if is_empty_config c then c
      else
        (case or_empty (meshes c) of
           [] \<Rightarrow> c
         | m # ms \<Rightarrow>
             (case specialEffectTriggers m of
                None \<Rightarrow> c
              | Some triggers \<Rightarrow>
                  let time_triggers = filter is_time_trigger triggers
                  in if trigger_idx < length time_triggers
                     then
                       let time_trigger = time_triggers ! trigger_idx
                       in c\<lparr>meshes := Some (m\<lparr>specialEffectTriggers :=
                              Some (remove_first (same_trigger time_trigger) triggers)\<rparr> # ms)\<rparr>
                     else c)))"

text \<open>The two removals of \<^verbatim>\<open>_delete_alarm\<close>, lines 344-354, in their order.\<close>

definition delete_alarm_document :: "config \<Rightarrow> alarm \<Rightarrow> config" where
  "delete_alarm_document c a =
     (let c1 = remove_time_trigger c (trigger_index a)
      in remove_type6_effect c1 (type6_index a))"

text \<open>\<^verbatim>\<open>_delete_alarm\<close> for the selected row, once the user has confirmed.\<close>

definition delete_alarm :: "alarm_state \<Rightarrow> nat \<Rightarrow> py_error + alarm_state" where
  "delete_alarm st index =
     (if index < length (alarms st)
      then load_data (delete_alarm_document (config_data st) (alarms st ! index))
      else Inl IndexError)"

subsection \<open>Save\<close>

text \<open>
  Lines 394-409, the loop over \<^verbatim>\<open>self.alarms\<close>: a record whose \<^verbatim>\<open>type6_index\<close> is not
  a key of the fresh index is passed over; for the others the stored trigger is copied and
  its two fields are overwritten. \<^verbatim>\<open>str(seconds)\<close> raises \<^verbatim>\<open>ValueError\<close> on an integer
  of more than 4300 digits.
\<close>

fun build_triggers :: "(nat \<times> nat) list \<Rightarrow> alarm list \<Rightarrow> obj list \<Rightarrow> py_error + obj list" where
  "build_triggers t2a [] triggers = Inr triggers"
| "build_triggers t2a (a # rest) triggers =
     (let secs = (if \<not> enabled a then seconds a + 100000 else seconds a);
          actual = dict_get_int t2a (type6_index a)
      in if actual \<ge> 0
         then
           if str_too_long secs then Inl ValueError
           else build_triggers t2a rest
                  (triggers @ [AList.update ''effectIndices'' (JList [JInt actual])
                     (AList.update ''triggerAtSecondOfDay'' (JStr (py_str secs)) (trigger a))])
         else build_triggers t2a rest triggers)"

text \<open>The document after line 412, which \<^verbatim>\<open>save_config\<close> then writes.\<close>

definition save_alarms_document :: "alarm_state \<Rightarrow> py_error + config" where
  "save_alarms_document st =
     (let all_effects = or_empty (specialEffectLibrary (config_data st));
          t2a = build_type6_to_actual_index all_effects
      in case build_triggers t2a (alarms st) [] of
           Inl e \<Rightarrow> Inl e
         | Inr triggers \<Rightarrow> Inr (set_time_triggers (config_data st) triggers))"

subsection \<open>Add and edit\<close>

text \<open>\<^verbatim>\<open>xs[i]\<close>: an index below zero is counted back from the end of the list.\<close>

definition py_index :: "'a list \<Rightarrow> int \<Rightarrow> py_error + 'a" where
  "py_index xs i =
     (if 0 \<le> i
      then (if i < int (length xs) then Inr (xs ! nat i) else Inl IndexError)
      else (if - i \<le> int (length xs) then Inr (xs ! nat (int (length xs) + i))
            else Inl IndexError))"

text \<open>The variables of the edit dialog when the user presses OK.\<close>

record form =
  time_var :: pystr
  enabled_var :: bool
  name_var :: pystr
  audio_var :: pystr
  loop_var :: bool

text \<open>Lines 241-251: the library entry written back for an existing alarm.\<close>

definition edited_effect :: "obj \<Rightarrow> form \<Rightarrow> obj" where
  "edited_effect old_effect frm =
     (let e1 = AList.update ''text'' (JStr (name_var frm)) old_effect;
          e2 = (if audio_var frm \<noteq> [] then AList.update ''audioFileName'' (JStr (audio_var frm)) e1
                else AList.delete ''audioFileName'' e1)
      in if loop_var frm then AList.update ''loop'' (JBool True) e2
         else AList.delete ''loop'' e2)"

text \<open>Lines 275-294: the library entry of a new alarm.\<close>

definition new_effect :: "form \<Rightarrow> obj" where
  "new_effect frm =
     (let e0 = [(''type'', JInt 6), (''image1FileName'', JStr (ascii ''dhk.png'')),
                (''initialScale'', JFloat (1 / 2)), (''finalScale'', JInt 1),
                (''initialRotation'', JInt 90), (''finalRotation'', JInt 0),
                (''alignLeftPercent'', JFloat (52 / 100)), (''alignRightPercent'', JInt (- 1)),
                (''verticalFromBottomPercent'', JInt 85), (''text'', JStr (name_var frm)),
                (''scaleDuration'', JInt 500), (''fadeOutDuration'', JInt (- 1))];
          e1 = (if audio_var frm \<noteq> [] then AList.update ''audioFileName'' (JStr (audio_var frm)) e0
                else e0)
      in if loop_var frm then AList.update ''loop'' (JBool True) e1 else e1)"

datatype save_result = Rejected | Saved

text \<open>
  \<^verbatim>\<open>save_alarm\<close>, the OK button of the dialog opened by \<^verbatim>\<open>_edit_alarm(index)\<close>;
  \<open>index = -1\<close> adds an alarm. A rejected time shows a message box and returns.
\<close>

definition save_alarm :: "alarm_state \<Rightarrow> int \<Rightarrow> form \<Rightarrow> py_error + (save_result \<times> alarm_state)" where
  "save_alarm st index frm =
     (let secs = time_to_seconds (time_var frm)
      in if secs < 0 then Inr (Rejected, st)
         else if index \<ge> 0 then
           (case py_index (alarms st) index of
              Inl e \<Rightarrow> Inl e
            | Inr old_alarm \<Rightarrow>
                (case py_index (type6_effects st) (type6_index old_alarm) of
                   Inl e \<Rightarrow> Inl e
                 | Inr old_effect \<Rightarrow>
                     let effect_data = edited_effect old_effect frm;
                         c' = set_type6_effect (config_data st) (type6_index old_alarm) effect_data;
                         trg = AList.update ''effectIndices'' (JList [actual_index old_alarm])
                                 (AList.update ''triggerAtSecondOfDay''
                                    (JStr (encode_time secs (enabled_var frm))) (trigger old_alarm));
                         alarm_data = \<lparr> seconds = secs, enabled = enabled_var frm,
                             name = JStr (name_var frm), audio_file = JStr (audio_var frm),
                             loop = JBool (loop_var frm), type6_index = type6_index old_alarm,
                             actual_index = actual_index old_alarm, trigger = trg,
                             trigger_index = trigger_index old_alarm \<rparr>
                     in Inr (Saved, st\<lparr>config_data := c',
                                        alarms := (alarms st)[nat index := alarm_data]\<rparr>)))
         else
           (let (c', actual) = add_type6_effect (config_data st) (new_effect frm);
                old_alarm_count = length (alarms st)
            in case load_data c' of
                 Inl e \<Rightarrow> Inl e
               | Inr st' \<Rightarrow>
                   (case find (\<lambda>(t6_idx, act_idx). int act_idx = actual) (type6_to_actual_index st') of
                      None \<Rightarrow> Inr (Saved, st')
                    | Some (t6, _) \<Rightarrow>
                        let trg = [(''triggerAtSecondOfDay'', JStr (encode_time secs (enabled_var frm))),
                                   (''effectIndices'', JList [JInt actual])];
                            alarm_data = \<lparr> seconds = secs, enabled = enabled_var frm,
                                name = JStr (name_var frm), audio_file = JStr (audio_var frm),
                                loop = JBool (loop_var frm), type6_index = int t6,
                                actual_index = JInt actual, trigger = trg,
                                trigger_index = old_alarm_count \<rparr>
                        in Inr (Saved, st'\<lparr>alarms := alarms st' @ [alarm_data]\<rparr>))))"

section \<open>Note editor (note_interface.py)\<close>

text \<open>
  \<open>n_disk\<close> is the document in \<^verbatim>\<open>config.json\<close>, \<open>n_config_data\<close> the one held
  by the \<^verbatim>\<open>ConfigManager\<close>, \<open>n_notes\<close> the list \<^verbatim>\<open>self.notes\<close>.
\<close>

record note_state =
  n_disk :: config
  n_config_data :: config
  n_notes :: "obj list"

definition ensure_visible :: "obj \<Rightarrow> obj" where
  "ensure_visible note =
     (if map_of note ''visible'' = None then AList.update ''visible'' (JBool True) note else note)"

text \<open>
  \<^verbatim>\<open>_load_data\<close>: \<^verbatim>\<open>get_notes\<close> returns the list object stored under \<^verbatim>\<open>"notes"\<close>
  (a fresh empty list when there is none), so assigning \<^verbatim>\<open>note["visible"]\<close> changes
  the notes inside \<^verbatim>\<open>config_data\<close> as well.
\<close>

definition note_load_data :: "note_state \<Rightarrow> note_state" where
  "note_load_data st =
     (let c = n_config_data st;
          ns = map ensure_visible (get_notes c)
      in st\<lparr>n_notes := ns,
            n_config_data := (if is_empty_config c \<or> notes_list c = None then c
                             else c\<lparr>notes_list := Some ns\<rparr>)\<rparr>)"

text \<open>
  \<^verbatim>\<open>_save_notes\<close> when the file system accepts the write: \<^verbatim>\<open>save_config\<close> refuses
  an empty document and otherwise dumps \<^verbatim>\<open>config_data\<close> to the file.
\<close>

definition save_notes :: "note_state \<Rightarrow> note_state" where
  "save_notes st =
     (let c' = set_notes (n_config_data st) (n_notes st)
      in if is_empty_config c' then st\<lparr>n_config_data := c'\<rparr>
         else st\<lparr>n_config_data := c', n_disk := c'\<rparr>)"

section \<open>Example documents\<close>

text \<open>A library with one alarm entry at position 1 and a trigger whose time is not a number.\<close>

definition doc_unparseable :: config where
  "doc_unparseable =
     \<lparr> meshes = Some [\<lparr> specialEffectTriggers = Some
          [[(''triggerAtSecondOfDay'', JStr (ascii ''abc'')), (''effectIndices'', JList [JInt 1])]],
          mesh_rest = [] \<rparr>],
       specialEffectLibrary = Some
         [[(''type'', JInt 1)], [(''type'', JInt 6), (''text'', JStr (ascii ''A''))]],
       notes_list = None, config_rest = [] \<rparr>"

definition alarm_unparseable :: alarm where
  "alarm_unparseable =
     \<lparr> seconds = 0, enabled = True, name = JStr (ascii ''A''), audio_file = JStr [],
       loop = JBool False, type6_index = 0, actual_index = JInt 1,
       trigger = [(''triggerAtSecondOfDay'', JStr (ascii ''abc'')), (''effectIndices'', JList [JInt 1])],
       trigger_index = 0 \<rparr>"

definition state_unparseable :: alarm_state where
  "state_unparseable =
     \<lparr> config_data = doc_unparseable, alarms = [alarm_unparseable],
       type6_effects = [[(''type'', JInt 6), (''text'', JStr (ascii ''A''))]],
       type6_to_actual_index = [(0, 1)] \<rparr>"

text \<open>A dialog whose time field holds 25:00, and one that holds 8:5.\<close>

definition form_late :: form where
  "form_late = \<lparr> time_var = ascii ''25:00'', enabled_var = True, name_var = ascii ''B'',
                 audio_var = [], loop_var = False \<rparr>"

definition form_early :: form where
  "form_early = \<lparr> time_var = ascii ''8:5'', enabled_var = True, name_var = ascii ''B'',
                  audio_var = [], loop_var = False \<rparr>"

text \<open>
  The scenario of the specification: one other effect and two alarm entries A and B, a
  click trigger and the two time triggers of the alarms, B disabled.
\<close>

definition mesh_two_alarms :: mesh where
  "mesh_two_alarms =
     \<lparr> specialEffectTriggers = Some
         [[(''triggerOnClick'', JBool True), (''effectIndices'', JList [JInt 0])],
          [(''triggerAtSecondOfDay'', JStr (ascii ''3600'')), (''effectIndices'', JList [JInt 1])],
          [(''triggerAtSecondOfDay'', JStr (ascii ''102000'')), (''effectIndices'', JList [JInt 2])]],
       mesh_rest = [] \<rparr>"

definition doc_two_alarms :: config where
  "doc_two_alarms =
     \<lparr> meshes = Some [mesh_two_alarms],
       specialEffectLibrary = Some
         [[(''type'', JInt 1)], [(''type'', JInt 6), (''text'', JStr (ascii ''A''))],
          [(''type'', JInt 6), (''text'', JStr (ascii ''B''))]],
       notes_list = None, config_rest = [] \<rparr>"

text \<open>
  A view over that document in which the first record points at a sixth alarm entry that
  the library does not have, and the second is alarm B.
\<close>

definition alarm_gone :: alarm where
  "alarm_gone =
     \<lparr> seconds = 60, enabled = True, name = JStr (ascii ''Z''), audio_file = JStr [],
       loop = JBool False, type6_index = 5, actual_index = JInt 7,
       trigger = [(''triggerAtSecondOfDay'', JStr (ascii ''60'')), (''effectIndices'', JList [JInt 7])],
       trigger_index = 0 \<rparr>"

definition alarm_b :: alarm where
  "alarm_b =
     \<lparr> seconds = 2000, enabled = False, name = JStr (ascii ''B''), audio_file = JStr [],
       loop = JBool False, type6_index = 1, actual_index = JInt 2,
       trigger = [(''triggerAtSecondOfDay'', JStr (ascii ''102000'')),
                  (''effectIndices'', JList [JInt 2])],
       trigger_index = 1 \<rparr>"

definition state_stale :: alarm_state where
  "state_stale =
     \<lparr> config_data = doc_two_alarms, alarms = [alarm_gone, alarm_b],
       type6_effects = [[(''type'', JInt 6), (''text'', JStr (ascii ''A''))],
                        [(''type'', JInt 6), (''text'', JStr (ascii ''B''))]],
       type6_to_actual_index = [(0, 1), (1, 2)] \<rparr>"

text \<open>A document with two notes, the first without a \<^verbatim>\<open>visible\<close> field, and the editor on it.\<close>

definition doc_notes :: config where
  "doc_notes =
     \<lparr> meshes = None, specialEffectLibrary = None,
       notes_list = Some [[(''text'', JStr (ascii ''hi''))],
                          [(''visible'', JBool False), (''text'', JStr (ascii ''x''))]],
       config_rest = [] \<rparr>"

definition state_notes :: note_state where
  "state_notes = \<lparr> n_disk = doc_notes, n_config_data = doc_notes, n_notes = [] \<rparr>"

text \<open>
  A document whose alarm entry carries an audio file, the loop flag and a layout field, and
  the editor state that \<^verbatim>\<open>_load_data\<close> builds from it.
\<close>

definition doc_edit :: config where
  "doc_edit =
     \<lparr> meshes = Some [\<lparr> specialEffectTriggers = Some
          [[(''triggerAtSecondOfDay'', JStr (ascii ''3600'')), (''effectIndices'', JList [JInt 1])]],
          mesh_rest = [] \<rparr>],
       specialEffectLibrary = Some
         [[(''type'', JInt 1)],
          [(''type'', JInt 6), (''text'', JStr (ascii ''A'')), (''audioFileName'', JStr (ascii ''a.mp3'')),
           (''loop'', JBool True), (''image1FileName'', JStr (ascii ''dhk.png''))]],
       notes_list = None, config_rest = [] \<rparr>"

definition state_edit :: alarm_state where
  "state_edit =
     \<lparr> config_data = doc_edit,
       alarms = [\<lparr> seconds = 3600, enabled = True, name = JStr (ascii ''A''),
                   audio_file = JStr (ascii ''a.mp3''), loop = JBool True, type6_index = 0,
                   actual_index = JInt 1,
                   trigger = [(''triggerAtSecondOfDay'', JStr (ascii ''3600'')),
                              (''effectIndices'', JList [JInt 1])],
                   trigger_index = 0 \<rparr>],
       type6_effects =
         [[(''type'', JInt 6), (''text'', JStr (ascii ''A'')), (''audioFileName'', JStr (ascii ''a.mp3'')),
           (''loop'', JBool True), (''image1FileName'', JStr (ascii ''dhk.png''))]],
       type6_to_actual_index = [(0, 1)] \<rparr>"

section \<open>Properties of the primitives\<close>

lemma is_digit_digit_char: "d < 10 \<Longrightarrow> is_digit (digit_char d)"
  by (simp add: is_digit_def digit_char_def)

lemma digit_val_digit_char: "d < 10 \<Longrightarrow> digit_val (digit_char d) = d"
  by (simp add: digit_val_def digit_char_def)

lemma not_space_digit: "is_digit c \<Longrightarrow> \<not> is_space c"
  by (auto simp: is_digit_def is_space_def)

lemma to_ascii_digit: "is_digit c \<Longrightarrow> to_ascii c = c"
  by (simp add: is_digit_def to_ascii_def)

lemma str_nat_digits: "\<forall>c \<in> set (str_nat n). is_digit c"
proof (induction n rule: str_nat.induct)
  case (1 n)
  show ?case
  proof (cases "n < 10")
    case True
    then show ?thesis by (subst str_nat.simps) (simp add: is_digit_digit_char)
  next
    case False
    with 1 show ?thesis by (subst str_nat.simps) (simp add: is_digit_digit_char)
  qed
qed

lemma str_nat_nonempty: "str_nat n \<noteq> []"
  by (subst str_nat.simps) simp

lemma length_str_nat: "0 < k \<Longrightarrow> n < 10 ^ k \<Longrightarrow> length (str_nat n) \<le> k"
proof (induction n arbitrary: k rule: str_nat.induct)
  case (1 n)
  show ?case
  proof (cases "n < 10")
    case True
    with "1.prems" show ?thesis by (subst str_nat.simps) simp
  next
    case False
    with "1.prems" obtain j where k: "k = Suc j" by (cases k) auto
    from False "1.prems" k have j: "0 < j" by (cases j) auto
    from "1.prems" k have "n div 10 < 10 ^ j"
      by (simp add: less_mult_imp_div_less mult.commute)
    from "1.IH" [OF False j this] have "length (str_nat (n div 10)) \<le> j" .
    with False k show ?thesis by (subst str_nat.simps) simp
  qed
qed

lemma int_digits_snoc:
  "\<forall>c \<in> set ds. is_digit c \<Longrightarrow> is_digit d \<Longrightarrow> int_digits p acc ds = Some v \<Longrightarrow>
   int_digits p acc (ds @ [d]) = Some (10 * v + digit_val d)"
  by (induction ds arbitrary: p acc) (auto split: if_splits)

lemma int_digits_str_nat: "int_digits False 0 (str_nat n) = Some n"
proof (induction n rule: str_nat.induct)
  case (1 n)
  show ?case
  proof (cases "n < 10")
    case True
    then show ?thesis
      by (subst str_nat.simps) (simp add: is_digit_digit_char digit_val_digit_char)
  next
    case False
    then have ih: "int_digits False 0 (str_nat (n div 10)) = Some (n div 10)"
      using 1 by simp
    have "int_digits False 0 (str_nat (n div 10) @ [digit_char (n mod 10)])
            = Some (10 * (n div 10) + digit_val (digit_char (n mod 10)))"
      by (rule int_digits_snoc [OF str_nat_digits _ ih]) (simp add: is_digit_digit_char)
    then show ?thesis
      using False by (subst str_nat.simps) (simp add: digit_val_digit_char)
  qed
qed

lemma strip_digits:
  assumes "s \<noteq> []" and "\<forall>c \<in> set s. is_digit c"
  shows "strip s = s"
proof -
  from assms have "is_digit (hd s)" and "is_digit (last s)"
    by simp_all
  then have h: "\<not> is_space (hd s)" and l: "\<not> is_space (last s)"
    by (simp_all add: not_space_digit)
  from assms(1) h have a: "dropWhile is_space s = s"
    by (cases s) auto
  from assms(1) l have b: "dropWhile is_space (rev s) = rev s"
    by (cases "rev s") (auto simp: last_rev [symmetric] hd_rev)
  show ?thesis by (simp add: strip_def a b)
qed

lemma map_to_ascii_digits: "\<forall>c \<in> set s. is_digit c \<Longrightarrow> map to_ascii s = s"
  by (induction s) (simp_all add: to_ascii_digit)

lemma int_of_str_str_nat:
  assumes "length (str_nat n) \<le> 4300"
  shows "int_of_str (str_nat n) = Some (int n)"
proof -
  obtain c r where cr: "str_nat n = c # r"
    using str_nat_nonempty [of n] by (cases "str_nat n") auto
  have m: "map to_ascii (str_nat n) = str_nat n"
    by (rule map_to_ascii_digits [OF str_nat_digits])
  have "strip (map to_ascii (str_nat n)) = str_nat n"
    unfolding m by (rule strip_digits [OF str_nat_nonempty str_nat_digits])
  then have s: "strip (map to_ascii (str_nat n)) = c # r"
    by (simp only: cr)
  have "is_digit c" using str_nat_digits [of n] cr by simp
  then have ns: "c \<noteq> 45" "c \<noteq> 43" by (auto simp: is_digit_def)
  have f: "filter is_digit (c # r) = c # r"
    using str_nat_digits [of n] cr by (simp add: filter_id_conv)
  have l: "\<not> length (filter is_digit (c # r)) > 4300"
    unfolding f using assms cr by simp
  have d: "int_digits False 0 (c # r) = Some n"
    using int_digits_str_nat [of n] cr by simp
  show ?thesis
    unfolding int_of_str_def s using ns l d by (simp only: list.case Let_def simp_thms if_False option.map)
qed

lemma py_int_py_str_small:
  assumes "0 \<le> i" and "i < 10 ^ k" and "0 < k" and "k \<le> 4300"
  shows "py_int (JStr (py_str i)) = Inr i"
proof -
  from assms(1,2) have "nat i < 10 ^ k" by (simp add: nat_less_iff)
  from length_str_nat [OF assms(3) this] assms(4)
  have "length (str_nat (nat i)) \<le> 4300" by (rule order_trans)
  from int_of_str_str_nat [OF this] assms(1) show ?thesis by (simp add: py_str_def)
qed

text \<open>
  C3. For every seconds in [0, 86400) and either value of enabled, decoding the encoded
  trigger time string gives back exactly (seconds, enabled), without an exception.
\<close>

theorem C3_decode_encode_roundtrip:
  "0 \<le> s \<Longrightarrow> s < 86400 \<Longrightarrow> decode_time (JStr (encode_time s en)) = Inr (s, en)"
proof -
  assume a: "0 \<le> s" "s < 86400"
  then have "s < 10 ^ 6" "s + 100000 < 10 ^ 6" "0 \<le> s + 100000" by simp_all
  then have "py_int (JStr (py_str s)) = Inr s"
    and "py_int (JStr (py_str (s + 100000))) = Inr (s + 100000)"
    using a(1) by (simp_all add: py_int_py_str_small [where k = 6] del: py_int.simps)
  with a show ?thesis
    by (cases en) (simp_all add: decode_time_def encode_time_def del: py_int.simps)
qed

theorem C3_decode_encode_roundtrip_witness:
  "decode_time (JStr (encode_time 3600 False)) = Inr (3600, False)"
  using C3_decode_encode_roundtrip [of 3600 False] by simp

section \<open>Evaluation on concrete documents\<close>

lemmas int_eval = int_of_str_def strip_def to_ascii_def is_space_def is_digit_def digit_val_def
  ascii_def uni_isspace_def uni_decimal_def unicode_decimal_zeros_def Let_def

lemmas eval_defs = load_data_def or_empty_def build_type6_to_actual_index_def is_type6_def
  get_or_null_def get_type6_effects_def is_empty_config_def get_time_triggers_def is_time_trigger_def
  invert_index_def alarm_of_trigger_def first_ref_def get_default_def decode_time_def
  dict_get_int_def int_eval

section \<open>Loading the alarm view\<close>

lemma alarm_of_trigger_SomeD:
  assumes "alarm_of_trigger a2t effs idx trg = Inr (Some a)"
  obtains secs en actual t6 where
        "decode_time (get_default trg ''triggerAtSecondOfDay'' (JStr (ascii ''0''))) = Inr (secs, en)"
    and "first_ref trg = Inr (Some actual)"
    and "dict_get_json a2t actual = Inr t6" and "0 \<le> t6" and "t6 < int (length effs)"
    and "a = \<lparr> seconds = secs, enabled = en,
             name = get_default (effs ! nat t6) ''text'' (JStr []),
             audio_file = get_default (effs ! nat t6) ''audioFileName'' (JStr []),
             loop = get_default (effs ! nat t6) ''loop'' (JBool False),
             type6_index = t6, actual_index = actual,
             trigger = trg, trigger_index = idx \<rparr>"
proof -
  from assms obtain secs en where
    d: "decode_time (get_default trg ''triggerAtSecondOfDay'' (JStr (ascii ''0''))) = Inr (secs, en)"
    unfolding alarm_of_trigger_def
    by (cases "decode_time (get_default trg ''triggerAtSecondOfDay'' (JStr (ascii ''0'')))") auto
  with assms obtain actual where fr: "first_ref trg = Inr (Some actual)"
    unfolding alarm_of_trigger_def
    by (cases "first_ref trg") (auto split: option.splits)
  with assms d obtain t6 where dg: "dict_get_json a2t actual = Inr t6"
    unfolding alarm_of_trigger_def
    by (cases "dict_get_json a2t actual") auto
  from assms d fr dg have r: "0 \<le> t6 \<and> t6 < int (length effs)"
    unfolding alarm_of_trigger_def
    by (simp split: if_splits)
  from assms d fr dg r have "a = \<lparr> seconds = secs, enabled = en,
             name = get_default (effs ! nat t6) ''text'' (JStr []),
             audio_file = get_default (effs ! nat t6) ''audioFileName'' (JStr []),
             loop = get_default (effs ! nat t6) ''loop'' (JBool False),
             type6_index = t6, actual_index = actual,
             trigger = trg, trigger_index = idx \<rparr>"
    unfolding alarm_of_trigger_def
    by (simp add: Let_def)
  with d fr dg r that show thesis by blast
qed

lemma alarm_of_trigger_SomeI:
  assumes "decode_time (get_default trg ''triggerAtSecondOfDay'' (JStr (ascii ''0''))) = Inr (secs, en)"
    and "first_ref trg = Inr (Some actual)"
    and "dict_get_json a2t actual = Inr t6" and "0 \<le> t6" and "t6 < int (length effs)"
  shows "alarm_of_trigger a2t effs idx trg =
     Inr (Some \<lparr> seconds = secs, enabled = en,
             name = get_default (effs ! nat t6) ''text'' (JStr []),
             audio_file = get_default (effs ! nat t6) ''audioFileName'' (JStr []),
             loop = get_default (effs ! nat t6) ''loop'' (JBool False),
             type6_index = t6, actual_index = actual,
             trigger = trg, trigger_index = idx \<rparr>)"
  using assms by (simp add: alarm_of_trigger_def Let_def)

lemma load_loop_acc: "load_loop a2t effs i ts acc = Inr als \<Longrightarrow> set acc \<subseteq> set als"
proof (induction ts arbitrary: i acc)
  case Nil
  then show ?case by simp
next
  case (Cons t ts)
  show ?case
  proof (cases "alarm_of_trigger a2t effs i t")
    case (Inl e)
    with Cons.prems show ?thesis by simp
  next
    case (Inr r)
    show ?thesis
    proof (cases r)
      case None
      with Inr Cons.prems have "load_loop a2t effs (Suc i) ts acc = Inr als" by simp
      from Cons.IH [OF this] show ?thesis .
    next
      case (Some b)
      with Inr Cons.prems have "load_loop a2t effs (Suc i) ts (acc @ [b]) = Inr als" by simp
      from Cons.IH [OF this] show ?thesis by simp
    qed
  qed
qed

lemma load_loop_nth:
  "load_loop a2t effs i ts acc = Inr als \<Longrightarrow> j < length ts \<Longrightarrow>
   (\<exists>r. alarm_of_trigger a2t effs (i + j) (ts ! j) = Inr r \<and> (\<forall>a. r = Some a \<longrightarrow> a \<in> set als))"
proof (induction ts arbitrary: i acc j)
  case Nil
  then show ?case by simp
next
  case (Cons t ts)
  show ?case
  proof (cases "alarm_of_trigger a2t effs i t")
    case (Inl e)
    with Cons.prems show ?thesis by simp
  next
    case (Inr r)
    obtain acc' where acc': "acc' = (case r of None \<Rightarrow> acc | Some b \<Rightarrow> acc @ [b])" by simp
    with Inr Cons.prems have l: "load_loop a2t effs (Suc i) ts acc' = Inr als"
      by (simp split: option.splits)
    show ?thesis
    proof (cases j)
      case 0
      from load_loop_acc [OF l] acc' have "\<forall>a. r = Some a \<longrightarrow> a \<in> set als" by auto
      with Inr 0 show ?thesis by simp
    next
      case (Suc k)
      with Cons.prems have "k < length ts" by simp
      from Cons.IH [OF l this] Suc show ?thesis by simp
    qed
  qed
qed

lemma load_loop_mem:
  "load_loop a2t effs i ts acc = Inr als \<Longrightarrow> a \<in> set als \<Longrightarrow>
   a \<in> set acc \<or> (\<exists>j < length ts. alarm_of_trigger a2t effs (i + j) (ts ! j) = Inr (Some a))"
proof (induction ts arbitrary: i acc)
  case Nil
  then show ?case by simp
next
  case (Cons t ts)
  show ?case
  proof (cases "alarm_of_trigger a2t effs i t")
    case (Inl e)
    with Cons.prems show ?thesis by simp
  next
    case (Inr r)
    obtain acc' where acc': "acc' = (case r of None \<Rightarrow> acc | Some b \<Rightarrow> acc @ [b])" by simp
    with Inr Cons.prems have l: "load_loop a2t effs (Suc i) ts acc' = Inr als"
      by (simp split: option.splits)
    from Cons.IH [OF l Cons.prems(2)]
    consider "a \<in> set acc'"
      | j where "j < length ts" "alarm_of_trigger a2t effs (Suc i + j) (ts ! j) = Inr (Some a)"
      by blast
    then show ?thesis
    proof cases
      case 1
      show ?thesis
      proof (cases "a \<in> set acc")
        case True
        then show ?thesis by simp
      next
        case False
        with 1 acc' have "r = Some a" by (cases r) auto
        with Inr have "alarm_of_trigger a2t effs (i + 0) ((t # ts) ! 0) = Inr (Some a)" by simp
        then show ?thesis by blast
      qed
    next
      case 2
      then have "Suc j < length (t # ts)"
        and "alarm_of_trigger a2t effs (i + Suc j) ((t # ts) ! Suc j) = Inr (Some a)" by simp_all
      then show ?thesis by blast
    qed
  qed
qed

lemma load_data_InrD:
  assumes "load_data c = Inr st"
  shows "load_loop (invert_index (build_type6_to_actual_index (or_empty (specialEffectLibrary c))))
          (get_type6_effects c) 0 (get_time_triggers c) [] = Inr (alarms st)"
    and "config_data st = c" and "type6_effects st = get_type6_effects c"
    and "type6_to_actual_index st = build_type6_to_actual_index (or_empty (specialEffectLibrary c))"
  using assms unfolding load_data_def Let_def
  by (cases "load_loop (invert_index (build_type6_to_actual_index (or_empty (specialEffectLibrary c))))
          (get_type6_effects c) 0 (get_time_triggers c) []"; auto)+

lemma get_time_triggers_are_time: "t \<in> set (get_time_triggers c) \<Longrightarrow> is_time_trigger t"
  by (auto simp: get_time_triggers_def split: if_splits list.splits)

lemma time_field_default:
  "is_time_trigger t \<Longrightarrow> get_default t ''triggerAtSecondOfDay'' d = get_or_null t ''triggerAtSecondOfDay''"
  by (auto simp: is_time_trigger_def get_default_def get_or_null_def)

lemma decode_unparseable:
  "py_int v = Inl e \<Longrightarrow> decode_time v = (if e = ValueError \<or> e = TypeError then Inr (0, True) else Inl e)"
  by (simp add: decode_time_def)

text \<open>
  C10. When \<^verbatim>\<open>_load_data\<close> returns and \<^verbatim>\<open>int()\<close> raises on the time field of the
  time trigger at position i, every view-record built from that trigger has seconds = 0
  and is enabled; and such a record is built whenever the first effect reference of the
  trigger resolves to an alarm entry. The fallback value 0 is below the threshold 100000,
  so the record is never shown as disabled.
\<close>

theorem C10_unparseable_time_enabled_midnight:
  assumes "load_data c = Inr st"
    and "i < length (get_time_triggers c)"
    and "py_int (get_or_null (get_time_triggers c ! i) ''triggerAtSecondOfDay'') = Inl e"
  shows "(\<forall>a \<in> set (alarms st). trigger_index a = i \<longrightarrow> seconds a = 0 \<and> enabled a)
       \<and> (\<forall>actual t6.
             first_ref (get_time_triggers c ! i) = Inr (Some actual)
             \<and> dict_get_json (invert_index (build_type6_to_actual_index
                   (or_empty (specialEffectLibrary c)))) actual = Inr t6
             \<and> 0 \<le> t6 \<and> t6 < int (length (get_type6_effects c))
             \<longrightarrow> (\<exists>a \<in> set (alarms st). trigger_index a = i \<and> trigger a = get_time_triggers c ! i
                    \<and> type6_index a = t6 \<and> seconds a = 0 \<and> enabled a))"
proof -
  let ?A = "invert_index (build_type6_to_actual_index (or_empty (specialEffectLibrary c)))"
  let ?E = "get_type6_effects c"
  let ?TS = "get_time_triggers c"
  let ?t = "?TS ! i"
  note l = load_data_InrD(1) [OF assms(1)]
  from assms(2) have "?t \<in> set ?TS" by (rule nth_mem)
  then have "is_time_trigger ?t" by (rule get_time_triggers_are_time)
  then have v: "get_default ?t ''triggerAtSecondOfDay'' (JStr (ascii ''0''))
                  = get_or_null ?t ''triggerAtSecondOfDay''"
    by (rule time_field_default)
  from load_loop_nth [OF l assms(2)] obtain r where
    r: "alarm_of_trigger ?A ?E i ?t = Inr r" and rs: "\<forall>a. r = Some a \<longrightarrow> a \<in> set (alarms st)"
    by auto
  have caught: "e = ValueError \<or> e = TypeError"
  proof (rule ccontr)
    assume "\<not> ?thesis"
    with assms(3) have "decode_time (get_or_null ?t ''triggerAtSecondOfDay'') = Inl e"
      by (simp add: decode_unparseable)
    with v have "alarm_of_trigger ?A ?E i ?t = Inl e" by (simp add: alarm_of_trigger_def)
    with r show False by simp
  qed
  with assms(3) v have d: "decode_time (get_default ?t ''triggerAtSecondOfDay'' (JStr (ascii ''0'')))
       = Inr (0, True)"
    by (simp add: decode_unparseable)
  show ?thesis
  proof (intro conjI ballI impI allI)
    fix a
    assume a: "a \<in> set (alarms st)" and ti: "trigger_index a = i"
    from load_loop_mem [OF l a] obtain j where
      j: "j < length ?TS" and aj: "alarm_of_trigger ?A ?E j (?TS ! j) = Inr (Some a)" by auto
    from aj have "trigger_index a = j" by (auto elim!: alarm_of_trigger_SomeD)
    with ti have ji: "j = i" by simp
    from aj [unfolded ji] d show "seconds a = 0" by (auto elim!: alarm_of_trigger_SomeD)
    from aj [unfolded ji] d show "enabled a" by (auto elim!: alarm_of_trigger_SomeD)
  next
    fix actual t6
    assume h: "first_ref ?t = Inr (Some actual) \<and> dict_get_json ?A actual = Inr t6
             \<and> 0 \<le> t6 \<and> t6 < int (length ?E)"
    let ?a = "\<lparr> seconds = 0, enabled = True,
             name = get_default (?E ! nat t6) ''text'' (JStr []),
             audio_file = get_default (?E ! nat t6) ''audioFileName'' (JStr []),
             loop = get_default (?E ! nat t6) ''loop'' (JBool False),
             type6_index = t6, actual_index = actual,
             trigger = ?t, trigger_index = i \<rparr>"
    from h have "alarm_of_trigger ?A ?E i ?t = Inr (Some ?a)"
      by (intro alarm_of_trigger_SomeI d) simp_all
    with r rs have "?a \<in> set (alarms st)" by simp
    then show "\<exists>a \<in> set (alarms st). trigger_index a = i \<and> trigger a = ?t
                    \<and> type6_index a = t6 \<and> seconds a = 0 \<and> enabled a"
      by (intro bexI [of _ ?a]) simp_all
  qed
qed

lemma load_doc_unparseable: "load_data doc_unparseable = Inr state_unparseable"
  by (simp add: doc_unparseable_def state_unparseable_def alarm_unparseable_def eval_defs)

theorem C10_unparseable_time_enabled_midnight_witness:
  "load_data doc_unparseable = Inr state_unparseable
   \<and> 0 < length (get_time_triggers doc_unparseable)
   \<and> py_int (get_or_null (get_time_triggers doc_unparseable ! 0) ''triggerAtSecondOfDay'')
       = Inl ValueError
   \<and> first_ref (get_time_triggers doc_unparseable ! 0) = Inr (Some (JInt 1))
   \<and> (\<exists>a \<in> set (alarms state_unparseable). trigger_index a = 0
         \<and> trigger a = get_time_triggers doc_unparseable ! 0
         \<and> type6_index a = 0 \<and> seconds a = 0 \<and> enabled a)"
proof -
  have t: "get_time_triggers doc_unparseable =
      [[(''triggerAtSecondOfDay'', JStr (ascii ''abc'')), (''effectIndices'', JList [JInt 1])]]"
    by (simp add: doc_unparseable_def get_time_triggers_def is_empty_config_def or_empty_def
        is_time_trigger_def)
  have i: "0 < length (get_time_triggers doc_unparseable)" by (simp add: t)
  have p: "py_int (get_or_null (get_time_triggers doc_unparseable ! 0) ''triggerAtSecondOfDay'')
       = Inl ValueError"
    by (simp add: t get_or_null_def int_eval)
  have f: "first_ref (get_time_triggers doc_unparseable ! 0) = Inr (Some (JInt 1))"
    by (simp add: t first_ref_def)
  have g: "dict_get_json (invert_index (build_type6_to_actual_index
             (or_empty (specialEffectLibrary doc_unparseable)))) (JInt 1) = Inr 0"
    by (simp add: doc_unparseable_def eval_defs)
  have e: "(0 :: int) \<le> 0 \<and> 0 < int (length (get_type6_effects doc_unparseable))"
    by (simp add: doc_unparseable_def eval_defs)
  from C10_unparseable_time_enabled_midnight [OF load_doc_unparseable i p] f g e
  have "\<exists>a \<in> set (alarms state_unparseable). trigger_index a = 0
         \<and> trigger a = get_time_triggers doc_unparseable ! 0
         \<and> type6_index a = 0 \<and> seconds a = 0 \<and> enabled a"
    by blast
  with load_doc_unparseable i p f show ?thesis by blast
qed

section \<open>Rebuilding the trigger array\<close>

lemma set_time_triggers_mesh:
  assumes "\<not> is_empty_config c" and "or_empty (meshes c) = m # ms"
  shows "set_time_triggers c ts =
     c\<lparr>meshes := Some (m\<lparr>specialEffectTriggers :=
          Some (filter (\<lambda>t. \<not> is_time_trigger t) (or_empty (specialEffectTriggers m)) @ ts)\<rparr> # ms)\<rparr>"
  using assms by (simp add: set_time_triggers_def Let_def)

lemma set_time_triggers_no_mesh:
  "is_empty_config c \<or> or_empty (meshes c) = [] \<Longrightarrow> set_time_triggers c ts = c"
  by (auto simp: set_time_triggers_def)

lemma get_after_set:
  assumes "\<not> is_empty_config c" and "or_empty (meshes c) = m # ms"
    and "\<forall>t \<in> set ts. is_time_trigger t"
  shows "get_time_triggers (set_time_triggers c ts) = ts"
proof -
  have f: "filter is_time_trigger ts = ts" using assms(3) by (simp add: filter_id_conv)
  show ?thesis
    unfolding set_time_triggers_mesh [OF assms(1,2)]
    by (simp add: get_time_triggers_def is_empty_config_def or_empty_def f)
qed

lemma set_twice:
  assumes "\<forall>t \<in> set ts. is_time_trigger t"
  shows "set_time_triggers (set_time_triggers c ts) ts = set_time_triggers c ts"
proof (cases "is_empty_config c \<or> or_empty (meshes c) = []")
  case True
  then show ?thesis by (simp add: set_time_triggers_no_mesh)
next
  case False
  then obtain m ms where ne: "\<not> is_empty_config c" and m: "or_empty (meshes c) = m # ms"
    by (cases "or_empty (meshes c)") auto
  have f: "filter (\<lambda>t. \<not> is_time_trigger t) ts = []" using assms by (simp add: filter_empty_conv)
  show ?thesis
    unfolding set_time_triggers_mesh [OF ne m]
    by (simp add: set_time_triggers_def is_empty_config_def or_empty_def f Let_def)
qed

text \<open>
  C6. \<^verbatim>\<open>set_time_triggers\<close> writes the non-time triggers of the first mesh in their
  order, then the supplied time triggers in theirs; reading the time triggers back and
  writing them again leaves the document as the first write made it.
\<close>

theorem C6_rebuild_order_idempotent:
  assumes "\<forall>t \<in> set ts. is_time_trigger t"
  shows "(\<not> is_empty_config c \<and> or_empty (meshes c) = m # ms \<longrightarrow>
            or_empty (meshes (set_time_triggers c ts)) =
              m\<lparr>specialEffectTriggers :=
                  Some (filter (\<lambda>t. \<not> is_time_trigger t) (or_empty (specialEffectTriggers m)) @ ts)\<rparr> # ms
            \<and> get_time_triggers (set_time_triggers c ts) = ts)
       \<and> set_time_triggers (set_time_triggers c ts) (get_time_triggers (set_time_triggers c ts))
           = set_time_triggers c ts"
proof (intro conjI impI)
  assume a: "\<not> is_empty_config c \<and> or_empty (meshes c) = m # ms"
  then show "or_empty (meshes (set_time_triggers c ts)) =
              m\<lparr>specialEffectTriggers :=
                  Some (filter (\<lambda>t. \<not> is_time_trigger t) (or_empty (specialEffectTriggers m)) @ ts)\<rparr> # ms"
    by (simp add: set_time_triggers_mesh or_empty_def)
  from a assms show "get_time_triggers (set_time_triggers c ts) = ts"
    by (simp add: get_after_set)
next
  show "set_time_triggers (set_time_triggers c ts) (get_time_triggers (set_time_triggers c ts))
           = set_time_triggers c ts"
  proof (cases "is_empty_config c \<or> or_empty (meshes c) = []")
    case True
    then have "set_time_triggers c ts = c" by (rule set_time_triggers_no_mesh)
    with True show ?thesis by (simp add: set_time_triggers_no_mesh)
  next
    case False
    then obtain m' ms' where ne: "\<not> is_empty_config c" and m: "or_empty (meshes c) = m' # ms'"
      by (cases "or_empty (meshes c)") auto
    from get_after_set [OF ne m assms] set_twice [OF assms] show ?thesis by simp
  qed
qed

theorem C6_rebuild_order_idempotent_witness:
  "or_empty (specialEffectTriggers (hd (or_empty (meshes
      (set_time_triggers doc_two_alarms
         [[(''triggerAtSecondOfDay'', JStr (ascii ''60'')), (''effectIndices'', JList [JInt 2])]])))))
   = [[(''triggerOnClick'', JBool True), (''effectIndices'', JList [JInt 0])],
      [(''triggerAtSecondOfDay'', JStr (ascii ''60'')), (''effectIndices'', JList [JInt 2])]]
   \<and> set_time_triggers
        (set_time_triggers doc_two_alarms
           [[(''triggerAtSecondOfDay'', JStr (ascii ''60'')), (''effectIndices'', JList [JInt 2])]])
        (get_time_triggers (set_time_triggers doc_two_alarms
           [[(''triggerAtSecondOfDay'', JStr (ascii ''60'')), (''effectIndices'', JList [JInt 2])]]))
      = set_time_triggers doc_two_alarms
           [[(''triggerAtSecondOfDay'', JStr (ascii ''60'')), (''effectIndices'', JList [JInt 2])]]"
proof -
  have h: "\<forall>t \<in> set [[(''triggerAtSecondOfDay'', JStr (ascii ''60'')), (''effectIndices'', JList [JInt 2])]].
             is_time_trigger t"
    by (simp add: is_time_trigger_def)
  have n: "\<not> is_empty_config doc_two_alarms \<and> or_empty (meshes doc_two_alarms) = mesh_two_alarms # []"
    by (simp add: doc_two_alarms_def is_empty_config_def or_empty_def)
  note r = C6_rebuild_order_idempotent [OF h, of doc_two_alarms mesh_two_alarms "[]"]
  from r n have x: "or_empty (meshes (set_time_triggers doc_two_alarms
         [[(''triggerAtSecondOfDay'', JStr (ascii ''60'')), (''effectIndices'', JList [JInt 2])]])) =
      mesh_two_alarms\<lparr>specialEffectTriggers :=
          Some (filter (\<lambda>t. \<not> is_time_trigger t) (or_empty (specialEffectTriggers mesh_two_alarms))
                @ [[(''triggerAtSecondOfDay'', JStr (ascii ''60'')), (''effectIndices'', JList [JInt 2])]])\<rparr> # []"
    by blast
  have a: "or_empty (specialEffectTriggers (hd (or_empty (meshes
      (set_time_triggers doc_two_alarms
         [[(''triggerAtSecondOfDay'', JStr (ascii ''60'')), (''effectIndices'', JList [JInt 2])]])))))
   = [[(''triggerOnClick'', JBool True), (''effectIndices'', JList [JInt 0])],
      [(''triggerAtSecondOfDay'', JStr (ascii ''60'')), (''effectIndices'', JList [JInt 2])]]"
    unfolding x by (simp add: mesh_two_alarms_def or_empty_def is_time_trigger_def)
  from r a show ?thesis by blast
qed

section \<open>Time-string validation\<close>

lemma time_to_seconds_accept:
  "split_colon s = [p0, p1] \<Longrightarrow> int_of_str p0 = Some h \<Longrightarrow> int_of_str p1 = Some m \<Longrightarrow>
   0 \<le> h \<Longrightarrow> h < 24 \<Longrightarrow> 0 \<le> m \<Longrightarrow> m < 60 \<Longrightarrow> time_to_seconds s = h * 3600 + m * 60"
  by (simp add: time_to_seconds_def)

lemma time_to_seconds_cases:
  "time_to_seconds s = - 1 \<or>
   (\<exists>p0 p1 h m. split_colon s = [p0, p1] \<and> int_of_str p0 = Some h \<and> int_of_str p1 = Some m \<and>
      0 \<le> h \<and> h < 24 \<and> 0 \<le> m \<and> m < 60)"
  unfolding time_to_seconds_def
  by (simp split: list.splits option.splits)

lemma split_8_5: "split_colon (ascii ''8:5'') = [ascii ''8'', ascii ''5'']"
  by (simp add: ascii_def)

lemma int_8: "int_of_str (ascii ''8'') = Some 8"
  by (simp add: int_eval)

lemma int_5: "int_of_str (ascii ''5'') = Some 5"
  by (simp add: int_eval)

lemma time_8_5: "time_to_seconds (ascii ''8:5'') = 29100"
  by (simp add: time_to_seconds_accept [OF split_8_5 int_8 int_5])

lemma time_25_00: "time_to_seconds (ascii ''25:00'') = - 1"
  by (simp add: time_to_seconds_def int_eval)

text \<open>Full-width digits are digits for \<^verbatim>\<open>int()\<close>, a field separator is not whitespace.\<close>

lemma time_fullwidth: "time_to_seconds [65304, 58, 65301] = 29100"
  by (simp add: time_to_seconds_def int_eval)

lemma time_field_separator: "time_to_seconds (28 # ascii ''8:05'') = - 1"
  by (simp add: time_to_seconds_def int_eval)

lemma save_alarm_rejected:
  "time_to_seconds (time_var frm) < 0 \<Longrightarrow> save_alarm st index frm = Inr (Rejected, st)"
  by (simp add: save_alarm_def Let_def)

text \<open>
  C7. \<^verbatim>\<open>time_to_seconds\<close> accepts every string with two colon-separated parts that
  \<^verbatim>\<open>int()\<close> reads as HH and MM with 0 \<le> HH < 24 and 0 \<le> MM < 60, and returns
  HH*3600 + MM*60 for it; every other string gives -1, and \<^verbatim>\<open>save_alarm\<close> then returns
  with the alarms and the document as they were. "8:5" gives 29100, "25:00" is rejected.
\<close>

theorem C7_time_string_validation:
  "(\<forall>p0 p1 h m. split_colon s = [p0, p1] \<and> int_of_str p0 = Some h \<and> int_of_str p1 = Some m \<and>
        0 \<le> h \<and> h < 24 \<and> 0 \<le> m \<and> m < 60 \<longrightarrow> time_to_seconds s = h * 3600 + m * 60)
   \<and> ((\<nexists>p0 p1 h m. split_colon s = [p0, p1] \<and> int_of_str p0 = Some h \<and> int_of_str p1 = Some m \<and>
        0 \<le> h \<and> h < 24 \<and> 0 \<le> m \<and> m < 60) \<longrightarrow>
         time_to_seconds s = - 1 \<and>
         (\<forall>st index frm. time_var frm = s \<longrightarrow> save_alarm st index frm = Inr (Rejected, st)))
   \<and> time_to_seconds (ascii ''8:5'') = 29100 \<and> time_to_seconds (ascii ''25:00'') = - 1"
proof (intro conjI impI allI)
  fix p0 p1 h m
  assume "split_colon s = [p0, p1] \<and> int_of_str p0 = Some h \<and> int_of_str p1 = Some m \<and>
        0 \<le> h \<and> h < 24 \<and> 0 \<le> m \<and> m < 60"
  then show "time_to_seconds s = h * 3600 + m * 60"
    by (simp add: time_to_seconds_accept)
next
  assume n: "\<nexists>p0 p1 h m. split_colon s = [p0, p1] \<and> int_of_str p0 = Some h \<and>
        int_of_str p1 = Some m \<and> 0 \<le> h \<and> h < 24 \<and> 0 \<le> m \<and> m < 60"
  with time_to_seconds_cases [of s] show r: "time_to_seconds s = - 1" by blast
  fix st :: alarm_state and index :: int and frm :: form
  assume "time_var frm = s"
  with r show "save_alarm st index frm = Inr (Rejected, st)"
    by (simp add: save_alarm_rejected)
next
  show "time_to_seconds (ascii ''8:5'') = 29100" by (rule time_8_5)
next
  show "time_to_seconds (ascii ''25:00'') = - 1" by (rule time_25_00)
qed

lemma no_parts_25_00:
  "\<nexists>p0 p1 h m. split_colon (ascii ''25:00'') = [p0, p1] \<and> int_of_str p0 = Some h \<and>
        int_of_str p1 = Some m \<and> 0 \<le> h \<and> h < 24 \<and> 0 \<le> m \<and> m < 60"
proof -
  have s: "split_colon (ascii ''25:00'') = [ascii ''25'', ascii ''00'']" by (simp add: ascii_def)
  have i: "int_of_str (ascii ''25'') = Some 25" by (simp add: int_eval)
  show ?thesis unfolding s using i by auto
qed

theorem C7_time_string_validation_witness:
  "split_colon (ascii ''23:59'') = [ascii ''23'', ascii ''59'']
   \<and> int_of_str (ascii ''23'') = Some 23 \<and> int_of_str (ascii ''59'') = Some 59
   \<and> time_to_seconds (ascii ''23:59'') = 23 * 3600 + 59 * 60
   \<and> time_var form_late = ascii ''25:00''
   \<and> time_to_seconds (ascii ''25:00'') = - 1
   \<and> save_alarm state_unparseable 0 form_late = Inr (Rejected, state_unparseable)"
proof -
  have s: "split_colon (ascii ''23:59'') = [ascii ''23'', ascii ''59'']" by (simp add: ascii_def)
  have h: "int_of_str (ascii ''23'') = Some 23" by (simp add: int_eval)
  have m: "int_of_str (ascii ''59'') = Some 59" by (simp add: int_eval)
  from C7_time_string_validation [of "ascii ''23:59''"] s h m
  have a: "time_to_seconds (ascii ''23:59'') = 23 * 3600 + 59 * 60" by simp
  have t: "time_var form_late = ascii ''25:00''" by (simp add: form_late_def)
  from C7_time_string_validation [of "ascii ''25:00''"] no_parts_25_00 t
  have r: "time_to_seconds (ascii ''25:00'') = - 1
      \<and> save_alarm state_unparseable 0 form_late = Inr (Rejected, state_unparseable)"
    by blast
  from s h m a t r show ?thesis by blast
qed

section \<open>Index projection\<close>

lemma type6_indices_Cons:
  "type6_indices (e # es) = (if is_type6 e then [0] else []) @ map Suc (type6_indices es)"
proof -
  have u: "[0..<length (e # es)] = 0 # map Suc [0..<length es]"
    by (simp add: upt_conv_Cons map_Suc_upt del: upt_Suc)
  show ?thesis
    unfolding type6_indices_def u
    by (simp add: filter_map comp_def)
qed

lemma update_fresh: "k \<notin> fst ` set d \<Longrightarrow> AList.update k v d = d @ [(k, v)]"
  by (induction d) auto

lemma index_loop_eq:
  "\<forall>k \<in> fst ` set d. k < c \<Longrightarrow>
   index_loop es i c d =
     d @ zip [c..<c + length (type6_indices es)] (map (\<lambda>j. i + j) (type6_indices es))"
proof (induction es arbitrary: i c d)
  case Nil
  then show ?case by (simp add: type6_indices_def)
next
  case (Cons e es)
  show ?case
  proof (cases "is_type6 e")
    case True
    from Cons.prems have fresh: "c \<notin> fst ` set d" by auto
    have pre: "\<forall>k \<in> fst ` set (d @ [(c, i)]). k < Suc c"
      using Cons.prems by auto
    have "index_loop (e # es) i c d = index_loop es (Suc i) (Suc c) (d @ [(c, i)])"
      using True by (simp add: update_fresh [OF fresh])
    also have "\<dots> = (d @ [(c, i)]) @
        zip [Suc c..<Suc c + length (type6_indices es)] (map (\<lambda>j. Suc i + j) (type6_indices es))"
      by (rule Cons.IH [OF pre])
    also have "\<dots> = d @ zip [c..<c + length (type6_indices (e # es))]
                        (map (\<lambda>j. i + j) (type6_indices (e # es)))"
      using True by (simp add: type6_indices_Cons upt_conv_Cons comp_def del: upt_Suc)
    finally show ?thesis .
  next
    case False
    then have "index_loop (e # es) i c d = index_loop es (Suc i) c d" by simp
    also have "\<dots> = d @ zip [c..<c + length (type6_indices es)]
                        (map (\<lambda>j. Suc i + j) (type6_indices es))"
      by (rule Cons.IH [OF Cons.prems])
    also have "\<dots> = d @ zip [c..<c + length (type6_indices (e # es))]
                        (map (\<lambda>j. i + j) (type6_indices (e # es)))"
      using False by (simp add: type6_indices_Cons comp_def)
    finally show ?thesis .
  qed
qed

lemma build_index_eq:
  "build_type6_to_actual_index lib = zip [0..<length (type6_indices lib)] (type6_indices lib)"
  by (simp add: build_type6_to_actual_index_def index_loop_eq)

lemma map_of_build_index:
  "map_of (build_type6_to_actual_index lib) n =
     (if n < length (type6_indices lib) then Some (type6_indices lib ! n) else None)"
proof (cases "n < length (type6_indices lib)")
  case True
  have "map_of (zip [0..<length (type6_indices lib)] (type6_indices lib))
          ([0..<length (type6_indices lib)] ! n) = Some (type6_indices lib ! n)"
    by (rule map_of_zip_nth) (use True in simp_all)
  with True show ?thesis by (simp add: build_index_eq)
next
  case False
  then have "n \<notin> fst ` set (zip [0..<length (type6_indices lib)] (type6_indices lib))"
    by (auto dest: set_zip_leftD)
  then have "map_of (zip [0..<length (type6_indices lib)] (type6_indices lib)) n = None"
    by (simp add: map_of_eq_None_iff)
  with False show ?thesis by (simp add: build_index_eq)
qed

lemma invert_fold_other:
  "v \<notin> snd ` set d \<Longrightarrow>
   map_of (fold (\<lambda>(k, v) m. AList.update v k m) d m) v = map_of m v"
  by (induction d arbitrary: m) (auto simp: update_conv')

lemma invert_fold_mem:
  "distinct (map snd d) \<Longrightarrow> (k, v) \<in> set d \<Longrightarrow>
   map_of (fold (\<lambda>(k, v) m. AList.update v k m) d m) v = Some k"
proof (induction d arbitrary: m)
  case Nil
  then show ?case by simp
next
  case (Cons x d)
  obtain k' v' where x: "x = (k', v')" by (cases x)
  show ?case
  proof (cases "(k, v) = (k', v')")
    case True
    with Cons.prems x have "v \<notin> snd ` set d" by auto
    then show ?thesis using True x by (simp add: invert_fold_other update_conv')
  next
    case False
    with Cons.prems x have "(k, v) \<in> set d" "distinct (map snd d)" by auto
    then show ?thesis using x Cons.IH by simp
  qed
qed

lemma invert_fold_none:
  "v \<notin> snd ` set d \<Longrightarrow> map_of (invert_index d) v = None"
  by (simp add: invert_index_def invert_fold_other)

lemma distinct_type6_indices: "distinct (type6_indices lib)"
  by (simp add: type6_indices_def)

lemma map_of_invert_index:
  assumes "n < length (type6_indices lib)"
  shows "map_of (invert_index (build_type6_to_actual_index lib)) (type6_indices lib ! n) = Some n"
proof -
  let ?P = "type6_indices lib"
  have d: "distinct (map snd (zip [0..<length ?P] ?P))"
    by (simp add: distinct_type6_indices)
  have "(([0..<length ?P]) ! n, ?P ! n) \<in> set (zip [0..<length ?P] ?P)"
    unfolding set_zip using assms by (intro CollectI exI [of _ n]) simp
  then have m: "(n, ?P ! n) \<in> set (zip [0..<length ?P] ?P)" using assms by simp
  show ?thesis
    unfolding invert_index_def build_index_eq
    by (rule invert_fold_mem [OF d m])
qed

lemma filter_upt_split:
  assumes "p < m" and "P p"
  shows "filter P [0..<m] = filter P [0..<p] @ p # filter P [Suc p..<m]"
proof -
  from assms(1) have "[0..<m] = [0..<p] @ [p..<m]"
    by (metis le_add_diff_inverse less_imp_le_nat upt_add_eq_append zero_le)
  also from assms(1) have "[p..<m] = p # [Suc p..<m]" by (rule upt_conv_Cons)
  finally show ?thesis using assms(2) by simp
qed

lemma take_as_map: "p \<le> length xs \<Longrightarrow> take p xs = map (\<lambda>i. xs ! i) [0..<p]"
  by (simp add: list_eq_iff_nth_eq)

lemma count_before:
  "p \<le> length lib \<Longrightarrow>
   length (filter (\<lambda>i. is_type6 (lib ! i)) [0..<p]) = length (filter is_type6 (take p lib))"
  by (simp add: take_as_map filter_map comp_def)

lemma type6_indices_nth:
  assumes "p < length lib" and "is_type6 (lib ! p)"
  shows "length (filter is_type6 (take p lib)) < length (type6_indices lib)
       \<and> type6_indices lib ! length (filter is_type6 (take p lib)) = p"
proof -
  let ?n = "length (filter (\<lambda>i. is_type6 (lib ! i)) [0..<p])"
  have s: "type6_indices lib = filter (\<lambda>i. is_type6 (lib ! i)) [0..<p] @ p #
             filter (\<lambda>i. is_type6 (lib ! i)) [Suc p..<length lib]"
    unfolding type6_indices_def using assms by (rule filter_upt_split)
  have n: "?n = length (filter is_type6 (take p lib))"
    using assms(1) by (simp add: count_before)
  have "?n < length (type6_indices lib)" by (subst s) simp
  moreover have "type6_indices lib ! ?n = p" by (subst s) (simp add: nth_append)
  ultimately show ?thesis by (simp add: n)
qed

lemma filter_as_map: "filter is_type6 lib = map (\<lambda>i. lib ! i) (type6_indices lib)"
proof -
  have "filter is_type6 lib = filter is_type6 (map (\<lambda>i. lib ! i) [0..<length lib])"
    by (simp add: map_nth)
  also have "\<dots> = map (\<lambda>i. lib ! i) (type6_indices lib)"
    by (simp add: filter_map comp_def type6_indices_def)
  finally show ?thesis .
qed

lemma set_type6_indices: "set (type6_indices lib) = {p. p < length lib \<and> is_type6 (lib ! p)}"
  by (auto simp: type6_indices_def)

text \<open>
  C2. For every library and every position p that holds a type-6 entry, the inverse map
  gives p the number n of type-6 entries before it, the forward map sends n back to p, and
  entry n of the type-6 subsequence is the entry at p. The inverse map is undefined at
  every other position.
\<close>

theorem C2_projection_roundtrip:
  "(p < length lib \<and> is_type6 (lib ! p) \<longrightarrow>
      (\<exists>n. map_of (invert_index (build_type6_to_actual_index lib)) p = Some n
           \<and> map_of (build_type6_to_actual_index lib) n = Some p
           \<and> n = length (filter is_type6 (take p lib))
           \<and> n < length (filter is_type6 lib) \<and> filter is_type6 lib ! n = lib ! p))
   \<and> (\<not> (p < length lib \<and> is_type6 (lib ! p)) \<longrightarrow>
         map_of (invert_index (build_type6_to_actual_index lib)) p = None)"
proof (intro conjI impI)
  assume a: "p < length lib \<and> is_type6 (lib ! p)"
  let ?n = "length (filter is_type6 (take p lib))"
  from a type6_indices_nth [of p lib] have lt: "?n < length (type6_indices lib)"
    and nth: "type6_indices lib ! ?n = p" by simp_all
  from map_of_invert_index [OF lt] nth
  have i: "map_of (invert_index (build_type6_to_actual_index lib)) p = Some ?n" by simp
  from lt nth have f: "map_of (build_type6_to_actual_index lib) ?n = Some p"
    by (simp add: map_of_build_index)
  from lt nth have g: "?n < length (filter is_type6 lib) \<and> filter is_type6 lib ! ?n = lib ! p"
    by (simp add: filter_as_map)
  from i f g show "\<exists>n. map_of (invert_index (build_type6_to_actual_index lib)) p = Some n
           \<and> map_of (build_type6_to_actual_index lib) n = Some p
           \<and> n = length (filter is_type6 (take p lib))
           \<and> n < length (filter is_type6 lib) \<and> filter is_type6 lib ! n = lib ! p"
    by blast
next
  assume "\<not> (p < length lib \<and> is_type6 (lib ! p))"
  then have "p \<notin> set (type6_indices lib)" by (simp add: set_type6_indices)
  then have "p \<notin> snd ` set (zip [0..<length (type6_indices lib)] (type6_indices lib))"
    by (auto dest: set_zip_rightD)
  then show "map_of (invert_index (build_type6_to_actual_index lib)) p = None"
    unfolding build_index_eq by (rule invert_fold_none)
qed

theorem C2_projection_roundtrip_witness:
  "2 < length (or_empty (specialEffectLibrary doc_two_alarms))
   \<and> is_type6 (or_empty (specialEffectLibrary doc_two_alarms) ! 2)
   \<and> map_of (invert_index (build_type6_to_actual_index
        (or_empty (specialEffectLibrary doc_two_alarms)))) 2 = Some 1
   \<and> map_of (build_type6_to_actual_index (or_empty (specialEffectLibrary doc_two_alarms))) 1 = Some 2
   \<and> map_of (invert_index (build_type6_to_actual_index
        (or_empty (specialEffectLibrary doc_two_alarms)))) 0 = None"
proof -
  let ?lib = "or_empty (specialEffectLibrary doc_two_alarms)"
  have l: "2 < length ?lib \<and> is_type6 (?lib ! 2)"
    by (simp add: doc_two_alarms_def or_empty_def is_type6_def get_or_null_def)
  have c: "length (filter is_type6 (take 2 ?lib)) = 1"
    by (simp add: doc_two_alarms_def or_empty_def is_type6_def get_or_null_def)
  have z: "\<not> (0 < length ?lib \<and> is_type6 (?lib ! 0))"
    by (simp add: doc_two_alarms_def or_empty_def is_type6_def get_or_null_def)
  from C2_projection_roundtrip [of 2 ?lib] l c
  have a: "map_of (invert_index (build_type6_to_actual_index ?lib)) 2 = Some 1
      \<and> map_of (build_type6_to_actual_index ?lib) 1 = Some 2"
    by auto
  from C2_projection_roundtrip [of 0 ?lib] z
  have b: "map_of (invert_index (build_type6_to_actual_index ?lib)) 0 = None" by blast
  from l a b show ?thesis by blast
qed

section \<open>Saving the alarms\<close>

lemma dict_get_int_build:
  "dict_get_int (build_type6_to_actual_index lib) k =
     (if 0 \<le> k \<and> nat k < length (type6_indices lib) then int (type6_indices lib ! nat k) else - 1)"
  by (simp add: dict_get_int_def map_of_build_index)

lemma type6_indices_nth_valid:
  "n < length (type6_indices lib) \<Longrightarrow>
   type6_indices lib ! n < length lib \<and> is_type6 (lib ! (type6_indices lib ! n))"
  using nth_mem [of n "type6_indices lib"] by (simp add: set_type6_indices)

lemma build_triggers_filter:
  "build_triggers T als acc =
   build_triggers T (filter (\<lambda>a. dict_get_int T (type6_index a) \<ge> 0) als) acc"
  by (induction als arbitrary: acc) (simp_all add: Let_def)

lemma build_triggers_ok:
  "\<forall>a \<in> set als. dict_get_int T (type6_index a) \<ge> 0 \<longrightarrow>
      \<not> str_too_long (if enabled a then seconds a else seconds a + 100000) \<Longrightarrow>
   build_triggers T als acc =
     Inr (acc @ map (\<lambda>a. AList.update ''effectIndices'' (JList [JInt (dict_get_int T (type6_index a))])
                     (AList.update ''triggerAtSecondOfDay''
                        (JStr (encode_time (seconds a) (enabled a))) (trigger a)))
                (filter (\<lambda>a. dict_get_int T (type6_index a) \<ge> 0) als))"
proof (induction als arbitrary: acc)
  case Nil
  then show ?case by simp
next
  case (Cons a als)
  then show ?case by (auto simp: Let_def encode_time_def split: if_splits)
qed

lemma updated_is_time_trigger:
  "is_time_trigger (AList.update k v (AList.update ''triggerAtSecondOfDay'' w t))"
  by (simp add: is_time_trigger_def update_conv')

lemma not_too_long_small:
  assumes "\<bar>i\<bar> < 10 ^ k" and "0 < k" and "k \<le> 4300"
  shows "\<not> str_too_long i"
proof -
  from assms(1) have "nat \<bar>i\<bar> < 10 ^ k" by (simp add: nat_less_iff)
  from length_str_nat [OF assms(2) this] assms(3) show ?thesis
    by (simp add: str_too_long_def)
qed

text \<open>
  C5. On save, a view-record is written exactly when its \<^verbatim>\<open>type6_index\<close> is the
  number of a type-6 entry of the current library. The other records change nothing: the
  outcome is that of saving without them. Unless \<^verbatim>\<open>str()\<close> refuses the time of a
  written record, the save succeeds, the written triggers are those of the live records in
  their order, each with the encoded time and the one-element list of the recomputed
  position, and they are the time triggers of the new document.
\<close>

theorem C5_stale_records_dropped_on_save:
  "let lib = or_empty (specialEffectLibrary (config_data st));
       T = build_type6_to_actual_index lib;
       live = (\<lambda>a. 0 \<le> type6_index a \<and> nat (type6_index a) < length (type6_indices lib));
       pos = (\<lambda>a. type6_indices lib ! nat (type6_index a));
       written = map (\<lambda>a. AList.update ''effectIndices'' (JList [JInt (int (pos a))])
                          (AList.update ''triggerAtSecondOfDay''
                             (JStr (encode_time (seconds a) (enabled a))) (trigger a)))
                     (filter live (alarms st))
   in build_triggers T (alarms st) [] = build_triggers T (filter live (alarms st)) []
      \<and> (\<forall>a \<in> set (alarms st). live a \<longrightarrow> pos a < length lib \<and> is_type6 (lib ! pos a))
      \<and> ((\<forall>a \<in> set (alarms st). live a \<longrightarrow>
              \<not> str_too_long (if enabled a then seconds a else seconds a + 100000)) \<longrightarrow>
            build_triggers T (alarms st) [] = Inr written
            \<and> save_alarms_document st = Inr (set_time_triggers (config_data st) written)
            \<and> (\<not> is_empty_config (config_data st) \<and> or_empty (meshes (config_data st)) \<noteq> [] \<longrightarrow>
                  get_time_triggers (set_time_triggers (config_data st) written) = written))"
proof -
  define lib where "lib = or_empty (specialEffectLibrary (config_data st))"
  define T where "T = build_type6_to_actual_index lib"
  define live where "live = (\<lambda>a :: alarm. 0 \<le> type6_index a \<and> nat (type6_index a) < length (type6_indices lib))"
  define pos where "pos = (\<lambda>a :: alarm. type6_indices lib ! nat (type6_index a))"
  define written where "written = map (\<lambda>a. AList.update ''effectIndices'' (JList [JInt (int (pos a))])
                          (AList.update ''triggerAtSecondOfDay''
                             (JStr (encode_time (seconds a) (enabled a))) (trigger a)))
                     (filter live (alarms st))"
  have live_iff: "(dict_get_int T (type6_index a) \<ge> 0) = live a" for a
    by (simp add: T_def live_def dict_get_int_build)
  have pos_eq: "live a \<Longrightarrow> dict_get_int T (type6_index a) = int (pos a)" for a
    by (simp add: T_def live_def pos_def dict_get_int_build)
  have f: "build_triggers T (alarms st) [] = build_triggers T (filter live (alarms st)) []"
    using build_triggers_filter [of T "alarms st" "[]"] by (simp add: live_iff)
  have v: "\<forall>a \<in> set (alarms st). live a \<longrightarrow> pos a < length lib \<and> is_type6 (lib ! pos a)"
    by (simp add: live_def pos_def type6_indices_nth_valid)
  have w: "build_triggers T (alarms st) [] = Inr written
            \<and> save_alarms_document st = Inr (set_time_triggers (config_data st) written)
            \<and> (\<not> is_empty_config (config_data st) \<and> or_empty (meshes (config_data st)) \<noteq> [] \<longrightarrow>
                  get_time_triggers (set_time_triggers (config_data st) written) = written)"
    if ok: "\<forall>a \<in> set (alarms st). live a \<longrightarrow>
              \<not> str_too_long (if enabled a then seconds a else seconds a + 100000)"
  proof -
    from ok have "\<forall>a \<in> set (alarms st). dict_get_int T (type6_index a) \<ge> 0 \<longrightarrow>
        \<not> str_too_long (if enabled a then seconds a else seconds a + 100000)"
      by (simp add: live_iff)
    from build_triggers_ok [OF this, of "[]"]
    have b: "build_triggers T (alarms st) [] = Inr written"
      by (simp add: written_def live_iff pos_eq cong: map_cong)
    then have s: "save_alarms_document st = Inr (set_time_triggers (config_data st) written)"
      by (simp add: save_alarms_document_def Let_def lib_def [symmetric] T_def [symmetric])
    have tt: "\<forall>t \<in> set written. is_time_trigger t"
      by (auto simp: written_def updated_is_time_trigger)
    have g: "get_time_triggers (set_time_triggers (config_data st) written) = written"
      if "\<not> is_empty_config (config_data st) \<and> or_empty (meshes (config_data st)) \<noteq> []"
    proof -
      from that obtain m ms where "or_empty (meshes (config_data st)) = m # ms"
        by (cases "or_empty (meshes (config_data st))") auto
      with that tt show ?thesis by (intro get_after_set) simp_all
    qed
    from b s g show ?thesis by blast
  qed
  from f v w show ?thesis
    unfolding Let_def written_def pos_def live_def T_def lib_def
    by blast
qed

lemma lib_two: "or_empty (specialEffectLibrary doc_two_alarms) =
   [[(''type'', JInt 1)], [(''type'', JInt 6), (''text'', JStr (ascii ''A''))],
          [(''type'', JInt 6), (''text'', JStr (ascii ''B''))]]"
  by (simp add: doc_two_alarms_def or_empty_def)

lemma idx_two: "type6_indices (or_empty (specialEffectLibrary doc_two_alarms)) = [1, 2]"
  by (simp add: lib_two type6_indices_def is_type6_def get_or_null_def upt_conv_Cons)

lemma enc_b: "encode_time 2000 False = ascii ''102000''"
  by (simp add: encode_time_def py_str_def str_nat.simps digit_char_def ascii_def)

theorem C5_stale_records_dropped_on_save_witness:
  "\<not> (0 \<le> type6_index alarm_gone \<and> nat (type6_index alarm_gone)
         < length (type6_indices (or_empty (specialEffectLibrary doc_two_alarms))))
   \<and> \<not> str_too_long (if enabled alarm_b then seconds alarm_b else seconds alarm_b + 100000)
   \<and> \<not> is_empty_config doc_two_alarms \<and> or_empty (meshes doc_two_alarms) \<noteq> []
   \<and> save_alarms_document state_stale =
       Inr (set_time_triggers doc_two_alarms
              [[(''triggerAtSecondOfDay'', JStr (ascii ''102000'')), (''effectIndices'', JList [JInt 2])]])
   \<and> get_time_triggers (set_time_triggers doc_two_alarms
              [[(''triggerAtSecondOfDay'', JStr (ascii ''102000'')), (''effectIndices'', JList [JInt 2])]])
       = [[(''triggerAtSecondOfDay'', JStr (ascii ''102000'')), (''effectIndices'', JList [JInt 2])]]"
proof -
  have g: "\<not> (0 \<le> type6_index alarm_gone \<and> nat (type6_index alarm_gone)
         < length (type6_indices (or_empty (specialEffectLibrary doc_two_alarms))))"
    by (simp add: idx_two alarm_gone_def)
  have b: "0 \<le> type6_index alarm_b \<and> nat (type6_index alarm_b)
         < length (type6_indices (or_empty (specialEffectLibrary doc_two_alarms)))"
    by (simp add: idx_two alarm_b_def)
  have p: "type6_indices (or_empty (specialEffectLibrary doc_two_alarms)) ! nat (type6_index alarm_b) = 2"
    by (simp add: idx_two alarm_b_def)
  have s: "\<not> str_too_long (if enabled alarm_b then seconds alarm_b else seconds alarm_b + 100000)"
    by (rule not_too_long_small [where k = 6]) (simp_all add: alarm_b_def)
  have m: "\<not> is_empty_config doc_two_alarms \<and> or_empty (meshes doc_two_alarms) \<noteq> []"
    by (simp add: doc_two_alarms_def is_empty_config_def or_empty_def)
  have w: "map (\<lambda>a. AList.update ''effectIndices''
                 (JList [JInt (int (type6_indices (or_empty (specialEffectLibrary doc_two_alarms))
                                     ! nat (type6_index a)))])
                 (AList.update ''triggerAtSecondOfDay''
                    (JStr (encode_time (seconds a) (enabled a))) (trigger a)))
            (filter (\<lambda>a. 0 \<le> type6_index a \<and> nat (type6_index a)
                  < length (type6_indices (or_empty (specialEffectLibrary doc_two_alarms))))
               [alarm_gone, alarm_b])
         = [[(''triggerAtSecondOfDay'', JStr (ascii ''102000'')), (''effectIndices'', JList [JInt 2])]]"
    using g b p by (simp add: alarm_b_def enc_b)
  have c: "config_data state_stale = doc_two_alarms" and a: "alarms state_stale = [alarm_gone, alarm_b]"
    by (simp_all add: state_stale_def)
  from C5_stale_records_dropped_on_save [of state_stale] g b s m
  have "save_alarms_document state_stale =
       Inr (set_time_triggers doc_two_alarms
              [[(''triggerAtSecondOfDay'', JStr (ascii ''102000'')), (''effectIndices'', JList [JInt 2])]])
   \<and> get_time_triggers (set_time_triggers doc_two_alarms
              [[(''triggerAtSecondOfDay'', JStr (ascii ''102000'')), (''effectIndices'', JList [JInt 2])]])
       = [[(''triggerAtSecondOfDay'', JStr (ascii ''102000'')), (''effectIndices'', JList [JInt 2])]]"
    unfolding Let_def c a w by simp
  with g s m show ?thesis by blast
qed

section \<open>Loading the notes\<close>

lemma ensure_visible_absent:
  "map_of note ''visible'' = None \<Longrightarrow> ensure_visible note = note @ [(''visible'', JBool True)]"
proof -
  assume "map_of note ''visible'' = None"
  then have "''visible'' \<notin> fst ` set note" by (simp add: map_of_eq_None_iff)
  then show ?thesis by (simp add: ensure_visible_def update_fresh \<open>map_of note ''visible'' = None\<close>)
qed

lemma ensure_visible_present: "map_of note ''visible'' \<noteq> None \<Longrightarrow> ensure_visible note = note"
  by (cases "map_of note ''visible''") (simp_all add: ensure_visible_def)

lemma ensure_visible_other: "k \<noteq> ''visible'' \<Longrightarrow> map_of (ensure_visible note) k = map_of note k"
  by (simp add: ensure_visible_def update_conv')

lemma ensure_visible_value:
  "map_of (ensure_visible note) ''visible'' =
     (case map_of note ''visible'' of None \<Rightarrow> Some (JBool True) | Some v \<Rightarrow> Some v)"
  by (simp add: ensure_visible_def update_conv' split: option.splits)

lemma note_load_view: "n_notes (note_load_data st) = map ensure_visible (get_notes (n_config_data st))"
  by (simp add: note_load_data_def Let_def)

lemma note_load_memory: "get_notes (n_config_data (note_load_data st)) = n_notes (note_load_data st)"
  by (auto simp: note_load_data_def Let_def get_notes_def is_empty_config_def or_empty_def
      split: option.splits)

lemma note_load_disk: "n_disk (note_load_data st) = n_disk st"
  by (simp add: note_load_data_def Let_def)

lemma save_notes_disk:
  "\<not> is_empty_config (n_config_data st) \<Longrightarrow>
   n_disk (save_notes st) = (n_config_data st)\<lparr>notes_list := Some (n_notes st)\<rparr>"
  by (auto simp: save_notes_def set_notes_def Let_def is_empty_config_def)

text \<open>
  C9. Loading the note editor leaves the file as it is. A note without a \<^verbatim>\<open>visible\<close>
  field gains \<^verbatim>\<open>visible = True\<close>, in the view and in the document in memory (they are
  the same records); a note that has the field is kept as it is. The next save writes the
  notes of the view, defaults included, to the file.
\<close>

theorem C9_visible_default_on_load:
  "n_disk (note_load_data st) = n_disk st
   \<and> get_notes (n_config_data (note_load_data st)) = n_notes (note_load_data st)
   \<and> length (n_notes (note_load_data st)) = length (get_notes (n_config_data st))
   \<and> (\<forall>i < length (get_notes (n_config_data st)).
         (map_of (get_notes (n_config_data st) ! i) ''visible'' = None \<longrightarrow>
            n_notes (note_load_data st) ! i
              = get_notes (n_config_data st) ! i @ [(''visible'', JBool True)]
            \<and> map_of (n_notes (note_load_data st) ! i) ''visible'' = Some (JBool True))
         \<and> (map_of (get_notes (n_config_data st) ! i) ''visible'' \<noteq> None \<longrightarrow>
            n_notes (note_load_data st) ! i = get_notes (n_config_data st) ! i))
   \<and> (\<not> is_empty_config (n_config_data st) \<longrightarrow>
         get_notes (n_disk (save_notes (note_load_data st))) = n_notes (note_load_data st))"
proof (intro conjI allI impI)
  show "n_disk (note_load_data st) = n_disk st" by (rule note_load_disk)
  show "get_notes (n_config_data (note_load_data st)) = n_notes (note_load_data st)"
    by (rule note_load_memory)
  show "length (n_notes (note_load_data st)) = length (get_notes (n_config_data st))"
    by (simp add: note_load_view)
next
  fix i
  assume i: "i < length (get_notes (n_config_data st))"
    and a: "map_of (get_notes (n_config_data st) ! i) ''visible'' = None"
  from i a show "n_notes (note_load_data st) ! i
              = get_notes (n_config_data st) ! i @ [(''visible'', JBool True)]"
    by (simp add: note_load_view ensure_visible_absent)
  from i a show "map_of (n_notes (note_load_data st) ! i) ''visible'' = Some (JBool True)"
    by (simp add: note_load_view ensure_visible_value)
next
  fix i
  assume "i < length (get_notes (n_config_data st))"
    and "map_of (get_notes (n_config_data st) ! i) ''visible'' \<noteq> None"
  then show "n_notes (note_load_data st) ! i = get_notes (n_config_data st) ! i"
    by (simp add: note_load_view ensure_visible_present)
next
  assume ne: "\<not> is_empty_config (n_config_data st)"
  then have ne': "\<not> is_empty_config (n_config_data (note_load_data st))"
    by (auto simp: note_load_data_def Let_def is_empty_config_def)
  show "get_notes (n_disk (save_notes (note_load_data st))) = n_notes (note_load_data st)"
    unfolding save_notes_disk [OF ne']
    by (simp add: get_notes_def is_empty_config_def or_empty_def)
qed

theorem C9_visible_default_on_load_witness:
  "map_of (get_notes (n_config_data state_notes) ! 0) ''visible'' = None
   \<and> map_of (get_notes (n_config_data state_notes) ! 1) ''visible'' \<noteq> None
   \<and> \<not> is_empty_config (n_config_data state_notes)
   \<and> n_notes (note_load_data state_notes) ! 0
       = [(''text'', JStr (ascii ''hi'')), (''visible'', JBool True)]
   \<and> n_notes (note_load_data state_notes) ! 1
       = [(''visible'', JBool False), (''text'', JStr (ascii ''x''))]
   \<and> n_disk (note_load_data state_notes) = doc_notes
   \<and> get_notes (n_disk (save_notes (note_load_data state_notes)))
       = n_notes (note_load_data state_notes)"
proof -
  have g: "get_notes (n_config_data state_notes) =
      [[(''text'', JStr (ascii ''hi''))], [(''visible'', JBool False), (''text'', JStr (ascii ''x''))]]"
    by (simp add: state_notes_def doc_notes_def get_notes_def is_empty_config_def or_empty_def)
  have l: "0 < length (get_notes (n_config_data state_notes))"
    "1 < length (get_notes (n_config_data state_notes))" by (simp_all add: g)
  have a: "map_of (get_notes (n_config_data state_notes) ! 0) ''visible'' = None"
    by (simp add: g)
  have b: "map_of (get_notes (n_config_data state_notes) ! 1) ''visible'' \<noteq> None"
    by (simp add: g)
  have n: "\<not> is_empty_config (n_config_data state_notes)"
    by (simp add: state_notes_def doc_notes_def is_empty_config_def)
  have d: "n_disk state_notes = doc_notes" by (simp add: state_notes_def)
  note t = C9_visible_default_on_load [of state_notes]
  from t l(1) a have x: "n_notes (note_load_data state_notes) ! 0
       = get_notes (n_config_data state_notes) ! 0 @ [(''visible'', JBool True)]" by blast
  from t l(2) b have y: "n_notes (note_load_data state_notes) ! 1
       = get_notes (n_config_data state_notes) ! 1" by blast
  from t d have z: "n_disk (note_load_data state_notes) = doc_notes" by simp
  from t n have s: "get_notes (n_disk (save_notes (note_load_data state_notes)))
       = n_notes (note_load_data state_notes)" by blast
  from x have x': "n_notes (note_load_data state_notes) ! 0
       = [(''text'', JStr (ascii ''hi'')), (''visible'', JBool True)]" by (simp add: g)
  from y have y': "n_notes (note_load_data state_notes) ! 1
       = [(''visible'', JBool False), (''text'', JStr (ascii ''x''))]" by (simp add: g)
  from a b n x' y' z s show ?thesis by blast
qed

section \<open>Editing an alarm\<close>

lemma edited_effect_lookup:
  "map_of (edited_effect e frm) k =
     (if k = ''loop'' then (if loop_var frm then Some (JBool True) else None)
      else if k = ''audioFileName''
           then (if audio_var frm \<noteq> [] then Some (JStr (audio_var frm)) else None)
      else if k = ''text'' then Some (JStr (name_var frm))
      else map_of e k)"
  by (simp add: edited_effect_def Let_def update_conv' delete_conv')

lemma set_type6_effect_lib:
  assumes "\<not> is_empty_config c" and "0 \<le> i"
    and "nat i < length (type6_indices (or_empty (specialEffectLibrary c)))"
  shows "set_type6_effect c i e =
     c\<lparr>specialEffectLibrary := Some ((or_empty (specialEffectLibrary c))
          [type6_indices (or_empty (specialEffectLibrary c)) ! nat i := e])\<rparr>"
  using assms by (simp add: set_type6_effect_def Let_def)

lemma py_index_nonneg:
  "0 \<le> i \<Longrightarrow> py_index xs i = Inr x \<Longrightarrow> nat i < length xs \<and> x = xs ! nat i"
  by (auto simp: py_index_def split: if_splits)

lemma save_alarm_edit:
  assumes "save_alarm st index frm = Inr (Saved, st')" and "0 \<le> index"
  shows "nat index < length (alarms st)
       \<and> (\<exists>old_effect. py_index (type6_effects st) (type6_index (alarms st ! nat index)) = Inr old_effect
            \<and> config_data st' = set_type6_effect (config_data st)
                  (type6_index (alarms st ! nat index)) (edited_effect old_effect frm))"
proof -
  from assms have t: "\<not> time_to_seconds (time_var frm) < 0"
    by (auto simp: save_alarm_def Let_def split: if_splits)
  with assms obtain old_alarm where oa: "py_index (alarms st) index = Inr old_alarm"
    by (cases "py_index (alarms st) index") (auto simp: save_alarm_def Let_def)
  with assms t obtain old_effect where
    oe: "py_index (type6_effects st) (type6_index old_alarm) = Inr old_effect"
    by (cases "py_index (type6_effects st) (type6_index old_alarm)") (auto simp: save_alarm_def Let_def)
  from py_index_nonneg [OF assms(2) oa] have i: "nat index < length (alarms st)"
    and o: "old_alarm = alarms st ! nat index" by simp_all
  from assms t oa oe have "config_data st' = set_type6_effect (config_data st)
                  (type6_index old_alarm) (edited_effect old_effect frm)"
    by (auto simp: save_alarm_def Let_def)
  with i o oe show ?thesis by auto
qed

text \<open>
  C8. Editing an existing alarm replaces the library entry of the alarm by a copy in which
  \<^verbatim>\<open>text\<close> is the new name, \<^verbatim>\<open>audioFileName\<close> is the audio file when one was chosen
  and is absent otherwise, and \<^verbatim>\<open>loop\<close> is \<^verbatim>\<open>True\<close> when loop was chosen and absent
  otherwise. Every other field of the entry, every other entry of the library and the rest
  of the document stay as they were. The editor copies the entry from its cache of the
  type-6 entries, which agrees with the library on the other fields.
\<close>

theorem C8_update_overwrites_three_fields:
  assumes "save_alarm st index frm = Inr (Saved, st')"
    and "0 \<le> index"
    and "0 \<le> type6_index (alarms st ! nat index)"
    and "length (type6_effects st) = length (get_type6_effects (config_data st))"
    and "\<forall>k. k \<notin> {''text'', ''audioFileName'', ''loop''} \<longrightarrow>
           map_of (type6_effects st ! nat (type6_index (alarms st ! nat index))) k
           = map_of (get_type6_effects (config_data st) ! nat (type6_index (alarms st ! nat index))) k"
  shows "let lib = or_empty (specialEffectLibrary (config_data st));
             lib' = or_empty (specialEffectLibrary (config_data st'));
             p = type6_indices lib ! nat (type6_index (alarms st ! nat index))
         in p < length lib \<and> is_type6 (lib ! p) \<and> length lib' = length lib
            \<and> (\<forall>q < length lib. q \<noteq> p \<longrightarrow> lib' ! q = lib ! q)
            \<and> map_of (lib' ! p) ''text'' = Some (JStr (name_var frm))
            \<and> map_of (lib' ! p) ''audioFileName''
                = (if audio_var frm \<noteq> [] then Some (JStr (audio_var frm)) else None)
            \<and> map_of (lib' ! p) ''loop'' = (if loop_var frm then Some (JBool True) else None)
            \<and> (\<forall>k. k \<notin> {''text'', ''audioFileName'', ''loop''} \<longrightarrow>
                  map_of (lib' ! p) k = map_of (lib ! p) k)
            \<and> meshes (config_data st') = meshes (config_data st)
            \<and> notes_list (config_data st') = notes_list (config_data st)
            \<and> config_rest (config_data st') = config_rest (config_data st)"
proof -
  define lib where "lib = or_empty (specialEffectLibrary (config_data st))"
  define t6 where "t6 = type6_index (alarms st ! nat index)"
  define p where "p = type6_indices lib ! nat t6"
  from save_alarm_edit [OF assms(1,2)] obtain old_effect where
    oe: "py_index (type6_effects st) t6 = Inr old_effect"
    and c': "config_data st' = set_type6_effect (config_data st) t6 (edited_effect old_effect frm)"
    by (auto simp: t6_def)
  from assms(3) have t0: "0 \<le> t6" by (simp add: t6_def)
  from py_index_nonneg [OF t0 oe] have n: "nat t6 < length (type6_effects st)"
    and o: "old_effect = type6_effects st ! nat t6" by simp_all
  from n assms(4) have ng: "nat t6 < length (get_type6_effects (config_data st))" by simp
  then have ne: "\<not> is_empty_config (config_data st)"
    by (auto simp: get_type6_effects_def)
  then have g: "get_type6_effects (config_data st) = map (\<lambda>i. lib ! i) (type6_indices lib)"
    by (simp add: get_type6_effects_def lib_def filter_as_map)
  with ng have ni: "nat t6 < length (type6_indices lib)" by simp
  from type6_indices_nth_valid [OF ni] have pv: "p < length lib" "is_type6 (lib ! p)"
    by (simp_all add: p_def)
  from g ni have gp: "get_type6_effects (config_data st) ! nat t6 = lib ! p"
    by (simp add: p_def)
  from set_type6_effect_lib [OF ne t0, of "edited_effect old_effect frm"] ni c'
  have cfg: "config_data st' =
      (config_data st)\<lparr>specialEffectLibrary := Some (lib[p := edited_effect old_effect frm])\<rparr>"
    by (simp add: lib_def p_def)
  then have l': "or_empty (specialEffectLibrary (config_data st')) = lib[p := edited_effect old_effect frm]"
    by (simp add: or_empty_def)
  from assms(5) have other: "k \<notin> {''text'', ''audioFileName'', ''loop''} \<Longrightarrow>
      map_of old_effect k = map_of (lib ! p) k" for k
    by (simp add: o t6_def [symmetric] gp)
  have "p < length lib \<and> is_type6 (lib ! p)
        \<and> length (lib[p := edited_effect old_effect frm]) = length lib
        \<and> (\<forall>q < length lib. q \<noteq> p \<longrightarrow> lib[p := edited_effect old_effect frm] ! q = lib ! q)
        \<and> map_of (lib[p := edited_effect old_effect frm] ! p) ''text'' = Some (JStr (name_var frm))
        \<and> map_of (lib[p := edited_effect old_effect frm] ! p) ''audioFileName''
            = (if audio_var frm \<noteq> [] then Some (JStr (audio_var frm)) else None)
        \<and> map_of (lib[p := edited_effect old_effect frm] ! p) ''loop''
            = (if loop_var frm then Some (JBool True) else None)
        \<and> (\<forall>k. k \<notin> {''text'', ''audioFileName'', ''loop''} \<longrightarrow>
              map_of (lib[p := edited_effect old_effect frm] ! p) k = map_of (lib ! p) k)"
    using pv other by (simp add: edited_effect_lookup)
  moreover from cfg have "meshes (config_data st') = meshes (config_data st)
            \<and> notes_list (config_data st') = notes_list (config_data st)
            \<and> config_rest (config_data st') = config_rest (config_data st)" by simp
  ultimately show ?thesis
    unfolding Let_def l' lib_def [symmetric] t6_def [symmetric] p_def [symmetric] by blast
qed

end
